theory Spec2Isabelle
  imports Complex_Main "HOL-Library.Word"
begin

section \<open>JavaScript values read from the upstream API\<close>

text \<open>
  A JavaScript number is a finite double, NaN or an infinity. Every finite double is a
  rational, and the service only applies \<^verbatim>\<open>typeof\<close>, \<^verbatim>\<open>isNaN\<close>,
  \<^verbatim>\<open>< 0\<close>, \<^verbatim>\<open>Math.floor\<close> and \<^verbatim>\<open>!==\<close> to a score, all of which
  are exact on doubles (the negative zero behaves as zero under each of them), so a finite
  number is modelled by its rational value.
\<close>

datatype jsnum = Finite rat | NaN | PosInf | NegInf

text \<open>A field of \<^verbatim>\<open>response.data\<close>; \<open>Undefined\<close> is what reading an absent field gives.\<close>

datatype jsval = Undefined | Null | Boolean bool | Number jsnum | Str string | Object

fun typeof :: "jsval \<Rightarrow> string" where
  "typeof Undefined = ''undefined''"
| "typeof Null = ''object''"
| "typeof (Boolean b) = ''boolean''"
| "typeof (Number n) = ''number''"
| "typeof (Str s) = ''string''"
| "typeof Object = ''object''"

fun isNaN :: "jsnum \<Rightarrow> bool" where
  "isNaN NaN = True"
| "isNaN n = False"

text \<open>\<^verbatim>\<open>n < 0\<close> on numbers: false whenever an operand is NaN.\<close>

fun lt_zero :: "jsnum \<Rightarrow> bool" where
  "lt_zero (Finite r) = (r < 0)"
| "lt_zero NegInf = True"
| "lt_zero n = False"

fun Math_floor :: "jsnum \<Rightarrow> jsnum" where
  "Math_floor (Finite r) = Finite (of_int \<lfloor>r\<rfloor>)"
| "Math_floor n = n"

text \<open>
  \<^verbatim>\<open>score !== this.lastKnown...\<close>: the cache holds \<^verbatim>\<open>null\<close> (\<open>None\<close>) or a
  number. A number is never strictly equal to \<^verbatim>\<open>null\<close>, and NaN is strictly unequal
  to everything, itself included.
\<close>

fun strict_neq :: "jsnum \<Rightarrow> jsnum option \<Rightarrow> bool" where
  "strict_neq x None = True"
| "strict_neq x (Some y) = (isNaN x \<or> isNaN y \<or> x \<noteq> y)"

section \<open>Errors thrown inside a cycle\<close>

text \<open>
  Each constructor stands for one \<^verbatim>\<open>Error\<close> the code throws or receives; the
  constructor and its argument determine \<^verbatim>\<open>error.message\<close>.
\<close>

datatype error =
    RequestError string  \<comment> \<open>axios rejected: timeout, HTTP error status, no response\<close>
  | TypeError  \<comment> \<open>a property read on \<^verbatim>\<open>null\<close> or \<^verbatim>\<open>undefined\<close>\<close>
  | ExtractError  \<comment> \<open>"Unable to extract both scores from API response"\<close>
  | InvalidBlackswanScore jsval  \<comment> \<open>"Invalid blackswan score received: ..."\<close>
  | InvalidMarketPeakScore jsval  \<comment> \<open>"Invalid market peak score received: ..."\<close>
  | AnalysisExtractError  \<comment> \<open>"Unable to extract analysis data from API response"\<close>
  | UploadError string  \<comment> \<open>\<^verbatim>\<open>pinJSONToIPFS\<close> rejected\<close>

section \<open>fetchScoresFromAPI\<close>

text \<open>
  What \<^verbatim>\<open>axios.get(API_ENDPOINT)\<close> does: it rejects, or it resolves to a response
  whose \<^verbatim>\<open>data\<close> is \<^verbatim>\<open>null\<close>/\<^verbatim>\<open>undefined\<close> (\<open>NoBody\<close>), or to a response
  whose \<^verbatim>\<open>data.blackswanScore\<close> and \<^verbatim>\<open>data.marketPeakScore\<close> read as the two
  given values.
\<close>

datatype api_reply = RequestFailed string | NoBody | Body jsval jsval

text \<open>
  The validation \<^verbatim>\<open>typeof s !== "number" || isNaN(s) || s < 0\<close>; the later
  disjuncts are only reached for a number.
\<close>

fun invalid_score :: "jsval \<Rightarrow> bool" where
  "invalid_score (Number n) = (isNaN n \<or> lt_zero n)"
| "invalid_score v = (typeof v \<noteq> ''number'')"

text \<open>
  The \<^verbatim>\<open>catch\<close> of \<^verbatim>\<open>fetchScoresFromAPI\<close> logs and rethrows, so every error is the
  function's result (\<open>Inl\<close>). The last \<open>Inl\<close> of the definition is never reached: a value
  that passes the validation is a number.
\<close>

definition fetchScoresFromAPI :: "api_reply \<Rightarrow> error + jsnum \<times> jsnum" where
  "fetchScoresFromAPI reply =
     (case reply of
        RequestFailed msg \<Rightarrow> Inl (RequestError msg)
      | NoBody \<Rightarrow> Inl TypeError
      | Body blackswanScore marketPeakScore \<Rightarrow>
          if blackswanScore \<noteq> Undefined \<and> marketPeakScore \<noteq> Undefined then
            if invalid_score blackswanScore then Inl (InvalidBlackswanScore blackswanScore)
            else if invalid_score marketPeakScore then Inl (InvalidMarketPeakScore marketPeakScore)
            else (case (blackswanScore, marketPeakScore) of
                    (Number b, Number m) \<Rightarrow> Inr (Math_floor b, Math_floor m)
                  | _ \<Rightarrow> Inl TypeError)
          else Inl ExtractError)"

section \<open>The oracle client\<close>

text \<open>
  The contract methods the service calls through ethers, with their score and IPFS
  arguments. The \<^verbatim>\<open>txOptions\<close> argument is built from the process environment only
  and is left out of the call.
\<close>

datatype contract_call =
    UpdateBothScores jsnum jsnum
  | UpdateBlackSwanScore jsnum
  | UpdateMarketPeakScore jsnum
  | UpdateScoresAndAnalysis jsnum jsnum string string

text \<open>
  What happens to a submitted call: the submission rejects, or \<^verbatim>\<open>tx.wait()\<close>
  rejects, or a receipt arrives with its \<^verbatim>\<open>status\<close>.
\<close>

datatype tx_outcome = SubmitRejected | WaitRejected | Receipt nat

text \<open>
  The chain side of one cycle: \<open>txOptionsOk\<close> is false when \<^verbatim>\<open>ethers.parseUnits\<close>
  throws on a fee override of the environment (inside the \<^verbatim>\<open>try\<close>, before any
  contract method is called); \<open>chain\<close> answers each submitted call.
\<close>

record chain_env =
  txOptionsOk :: bool
  chain :: "contract_call \<Rightarrow> tx_outcome"

text \<open>
  \<^verbatim>\<open>updateOracleScores(newBlackswanScore, newMarketPeakScore, updateType = "both")\<close>.
  The third argument is optional: \<open>None\<close> is an omitted (or \<^verbatim>\<open>undefined\<close>) argument,
  for which the parameter takes its default "both". The result
  is the list of contract calls submitted and the boolean returned. When no branch of the
  \<^verbatim>\<open>if\<close> chain matches, \<^verbatim>\<open>tx\<close> stays \<^verbatim>\<open>undefined\<close> and \<^verbatim>\<open>tx.wait()\<close>
  throws a TypeError; the function's own \<^verbatim>\<open>catch\<close> logs every error and returns
  \<^verbatim>\<open>false\<close>. (Whatever is thrown is taken to be an \<^verbatim>\<open>Error\<close> object, as ethers
  and the runtime throw them, so that reading \<^verbatim>\<open>error.message\<close> in the
  \<^verbatim>\<open>catch\<close> does not throw in turn.)
\<close>

definition select_tx :: "jsnum \<Rightarrow> jsnum \<Rightarrow> string \<Rightarrow> contract_call option" where
  "select_tx newBlackswanScore newMarketPeakScore updateType =
     (if updateType = ''both'' then Some (UpdateBothScores newBlackswanScore newMarketPeakScore)
      else if updateType = ''blackswan'' then Some (UpdateBlackSwanScore newBlackswanScore)
      else if updateType = ''marketpeak'' then Some (UpdateMarketPeakScore newMarketPeakScore)
      else None)"

definition receipt_ok :: "tx_outcome \<Rightarrow> bool" where
  "receipt_ok out = (case out of Receipt st \<Rightarrow> st = 1 | _ \<Rightarrow> False)"

definition updateOracleScores ::
  "'a chain_env_scheme \<Rightarrow> jsnum \<Rightarrow> jsnum \<Rightarrow> string option \<Rightarrow> contract_call list \<times> bool" where
  "updateOracleScores env newBlackswanScore newMarketPeakScore arg =
     (let updateType = (case arg of None \<Rightarrow> ''both'' | Some given \<Rightarrow> given) in
      if \<not> txOptionsOk env then ([], False)
      else case select_tx newBlackswanScore newMarketPeakScore updateType of
             None \<Rightarrow> ([], False)
           | Some tx \<Rightarrow> ([tx], receipt_ok (chain env tx)))"

section \<open>Service state\<close>

text \<open>Times are milliseconds as \<^verbatim>\<open>new Date()\<close> gives them.\<close>

record service_status =
  status :: string
  uptime :: int
  startTime :: int
  lastUpdate :: "int option"
  lastSuccessfulUpdate :: "int option"
  updateCount :: nat
  errorCount :: nat
  lastError :: "(error \<times> int) option"
  isHealthy :: bool

record service =
  lastKnownBlackSwanScore :: "jsnum option"
  lastKnownMarketPeakScore :: "jsnum option"
  isRunning :: bool
  serviceStatus :: service_status

text \<open>The state the constructor leaves, built at time \<open>now\<close>.\<close>

definition constructor :: "int \<Rightarrow> service" where
  "constructor now =
     \<lparr>lastKnownBlackSwanScore = None, lastKnownMarketPeakScore = None, isRunning = False,
      serviceStatus =
        \<lparr>status = ''starting'', uptime = 0, startTime = now, lastUpdate = None,
         lastSuccessfulUpdate = None, updateCount = 0, errorCount = 0, lastError = None,
         isHealthy = False\<rparr>\<rparr>"

text \<open>The groups of assignments to \<^verbatim>\<open>this.serviceStatus\<close> that the cycles make.\<close>

definition mark_attempt :: "int \<Rightarrow> 'a service_scheme \<Rightarrow> 'a service_scheme" where
  \<comment> \<open>\<^verbatim>\<open>this.serviceStatus.lastUpdate = new Date()\<close>\<close>
  "mark_attempt now s = s\<lparr>serviceStatus := (serviceStatus s)\<lparr>lastUpdate := Some now\<rparr>\<rparr>"

definition on_success :: "int \<Rightarrow> 'a service_scheme \<Rightarrow> 'a service_scheme" where
  \<comment> \<open>the statements after the cache assignments of an \<^verbatim>\<open>if (success)\<close> branch\<close>
  "on_success now s =
     s\<lparr>serviceStatus := (serviceStatus s)
        \<lparr>lastSuccessfulUpdate := Some now,
         updateCount := updateCount (serviceStatus s) + 1,
         isHealthy := True\<rparr>\<rparr>"

definition on_tx_failure :: "'a service_scheme \<Rightarrow> 'a service_scheme" where
  \<comment> \<open>the \<^verbatim>\<open>else\<close> branch of a steady-state \<^verbatim>\<open>if (success)\<close>\<close>
  "on_tx_failure s =
     s\<lparr>serviceStatus := (serviceStatus s)
        \<lparr>errorCount := errorCount (serviceStatus s) + 1, isHealthy := False\<rparr>\<rparr>"

definition on_error :: "error \<Rightarrow> int \<Rightarrow> 'a service_scheme \<Rightarrow> 'a service_scheme" where
  \<comment> \<open>the \<^verbatim>\<open>catch\<close> block of \<^verbatim>\<open>checkAndUpdateScores\<close>\<close>
  "on_error e now s =
     s\<lparr>serviceStatus := (serviceStatus s)
        \<lparr>errorCount := errorCount (serviceStatus s) + 1,
         lastError := Some (e, now),
         isHealthy := False\<rparr>\<rparr>"

section \<open>checkAndUpdateScores, score-only service\<close>

text \<open>
  The environment of one cycle: the clock when the cycle starts and when its outcome is
  recorded, and the reply of the upstream API.
\<close>

record clock_env = chain_env +
  startedAt :: int
  settledAt :: int

record cycle_env = clock_env +
  apiReply :: api_reply

text \<open>
  The \<^verbatim>\<open>try\<close> block. The result is the error thrown out of the block (if any), the
  contract calls submitted, and the service state.
\<close>

definition checkAndUpdateScores_try ::
  "'e cycle_env_scheme \<Rightarrow> service \<Rightarrow> error option \<times> contract_call list \<times> service" where
  "checkAndUpdateScores_try env s0 =
     (let s = mark_attempt (startedAt env) s0 in
      case fetchScoresFromAPI (apiReply env) of
        Inl e \<Rightarrow> (Some e, [], s)
      | Inr (blackswanScore, marketPeakScore) \<Rightarrow>
          if lastKnownBlackSwanScore s = None \<or> lastKnownMarketPeakScore s = None then
            (None, [],
             s\<lparr>lastKnownBlackSwanScore := Some blackswanScore,
               lastKnownMarketPeakScore := Some marketPeakScore\<rparr>)
          else
            let blackswanChanged = strict_neq blackswanScore (lastKnownBlackSwanScore s);
                marketPeakChanged = strict_neq marketPeakScore (lastKnownMarketPeakScore s)
            in
            if \<not> blackswanChanged \<and> \<not> marketPeakChanged then (None, [], s)
            else
              let updateType =
                    (if blackswanChanged \<and> marketPeakChanged then ''both''
                     else if blackswanChanged then ''blackswan''
                     else ''marketpeak'');
                  (calls, success) =
                    updateOracleScores env blackswanScore marketPeakScore (Some updateType)
              in
              if success then
                (None, calls,
                 on_success (settledAt env)
                   (s\<lparr>lastKnownBlackSwanScore := Some blackswanScore,
                      lastKnownMarketPeakScore := Some marketPeakScore\<rparr>))
              else (None, calls, on_tx_failure s))"

text \<open>The whole function: the \<^verbatim>\<open>catch\<close> block records the error and swallows it.\<close>

definition checkAndUpdateScores ::
  "'e cycle_env_scheme \<Rightarrow> service \<Rightarrow> error option \<times> contract_call list \<times> service" where
  "checkAndUpdateScores env s0 =
     (case checkAndUpdateScores_try env s0 of
        (Some e, calls, s) \<Rightarrow> (None, calls, on_error e (settledAt env) s)
      | (None, calls, s) \<Rightarrow> (None, calls, s))"

abbreviation thrown :: "error option \<times> contract_call list \<times> 's \<Rightarrow> error option" where
  "thrown r \<equiv> fst r"

abbreviation calls_of :: "'r \<times> contract_call list \<times> 's \<Rightarrow> contract_call list" where
  "calls_of r \<equiv> fst (snd r)"

abbreviation state_of :: "'r \<times> contract_call list \<times> 's \<Rightarrow> 's" where
  "state_of r \<equiv> snd (snd r)"

text \<open>The cached scores of a service state.\<close>

definition cache :: "'a service_scheme \<Rightarrow> jsnum option \<times> jsnum option" where
  "cache s = (lastKnownBlackSwanScore s, lastKnownMarketPeakScore s)"

section \<open>HTTP handlers\<close>

text \<open>
  \<^verbatim>\<open>GET /health\<close>: the response carries the fields of \<^verbatim>\<open>serviceStatus\<close> (with
  \<^verbatim>\<open>isHealthy\<close> under the name \<^verbatim>\<open>healthy\<close>) and the current time; the handler
  also refreshes \<^verbatim>\<open>uptime\<close>.
\<close>

record health_response =
  httpStatus :: nat
  healthy :: bool
  statusFields :: service_status
  timestamp :: int

definition get_health :: "int \<Rightarrow> service \<Rightarrow> health_response \<times> service" where
  "get_health currentTime s0 =
     (let s = s0\<lparr>serviceStatus := (serviceStatus s0)
                  \<lparr>uptime := (currentTime - startTime (serviceStatus s0)) div 1000\<rparr>\<rparr>
      in (\<lparr>httpStatus = (if isHealthy (serviceStatus s) then 200 else 503),
           healthy = isHealthy (serviceStatus s),
           statusFields = serviceStatus s,
           timestamp = currentTime\<rparr>, s))"

text \<open>
  \<^verbatim>\<open>POST /update\<close>: the \<^verbatim>\<open>try\<close> branch answers with the default status 200, the
  \<^verbatim>\<open>catch\<close> branch with 500.
\<close>

datatype update_body =
    UpdateDone string int  \<comment> \<open>\<^verbatim>\<open>{success: true, message, timestamp}\<close>\<close>
  | UpdateFailed error int  \<comment> \<open>\<^verbatim>\<open>{success: false, error, timestamp}\<close>\<close>

definition post_update ::
  "'e cycle_env_scheme \<Rightarrow> int \<Rightarrow> service \<Rightarrow> (nat \<times> update_body) \<times> contract_call list \<times> service" where
  "post_update env now s0 =
     (case checkAndUpdateScores env s0 of
        (None, calls, s) \<Rightarrow> ((200, UpdateDone ''Update check completed'' now), calls, s)
      | (Some e, calls, s) \<Rightarrow> ((500, UpdateFailed e now), calls, s))"

section \<open>The event loop: cycles interleaved at their awaits\<close>

text \<open>
  An \<^verbatim>\<open>async\<close> function runs without interruption up to its next \<^verbatim>\<open>await\<close> of
  a network promise. \<^verbatim>\<open>checkAndUpdateScores\<close> therefore runs in three pieces: up to
  \<^verbatim>\<open>await axios.get\<close>; from the reply up to the awaited contract method of
  \<^verbatim>\<open>updateOracleScores\<close> (whose call is made in this piece); and from the outcome of
  the transaction to the end. Other callbacks (a timer tick, an HTTP request) run between
  the pieces.
\<close>

datatype task =
    AwaitFetch  \<comment> \<open>suspended at \<^verbatim>\<open>await axios.get\<close>\<close>
  | AwaitTx jsnum jsnum  \<comment> \<open>suspended on the submitted transaction, holding the fetched scores\<close>
  | Returned

datatype origin = FromStart | FromTimer | FromPost

definition after_fetch ::
  "bool \<Rightarrow> api_reply \<Rightarrow> int \<Rightarrow> service \<Rightarrow> task \<times> contract_call list \<times> service" where
  "after_fetch optionsOk reply now s =
     (case fetchScoresFromAPI reply of
        Inl e \<Rightarrow> (Returned, [], on_error e now s)
      | Inr (blackswanScore, marketPeakScore) \<Rightarrow>
          if lastKnownBlackSwanScore s = None \<or> lastKnownMarketPeakScore s = None then
            (Returned, [],
             s\<lparr>lastKnownBlackSwanScore := Some blackswanScore,
               lastKnownMarketPeakScore := Some marketPeakScore\<rparr>)
          else
            let blackswanChanged = strict_neq blackswanScore (lastKnownBlackSwanScore s);
                marketPeakChanged = strict_neq marketPeakScore (lastKnownMarketPeakScore s)
            in
            if \<not> blackswanChanged \<and> \<not> marketPeakChanged then (Returned, [], s)
            else
              let updateType =
                    (if blackswanChanged \<and> marketPeakChanged then ''both''
                     else if blackswanChanged then ''blackswan''
                     else ''marketpeak'')
              in
              if \<not> optionsOk then (Returned, [], on_tx_failure s)
              else case select_tx blackswanScore marketPeakScore updateType of
                     None \<Rightarrow> (Returned, [], on_tx_failure s)
                   | Some tx \<Rightarrow> (AwaitTx blackswanScore marketPeakScore, [tx], s))"

definition after_tx :: "tx_outcome \<Rightarrow> jsnum \<Rightarrow> jsnum \<Rightarrow> int \<Rightarrow> service \<Rightarrow> service" where
  "after_tx out blackswanScore marketPeakScore now s =
     (if receipt_ok out then
        on_success now
          (s\<lparr>lastKnownBlackSwanScore := Some blackswanScore,
             lastKnownMarketPeakScore := Some marketPeakScore\<rparr>)
      else on_tx_failure s)"

text \<open>
  The process: the service object, every cycle started so far with who started it, the
  contract calls made so far, whether \<^verbatim>\<open>setInterval\<close> has been called, and whether
  the fee overrides of the environment parse.
\<close>

record system =
  svc :: service
  tasks :: "(origin \<times> task) list"
  submitted :: "contract_call list"
  intervalSet :: bool
  feeOptionsOk :: bool

definition boot :: "int \<Rightarrow> bool \<Rightarrow> system" where
  "boot now optionsOk =
     \<lparr>svc = constructor now, tasks = [], submitted = [], intervalSet = False,
      feeOptionsOk = optionsOk\<rparr>"

datatype event =
    Start int  \<comment> \<open>\<^verbatim>\<open>start()\<close> is called\<close>
  | TimerTick int  \<comment> \<open>the \<^verbatim>\<open>setInterval\<close> callback fires\<close>
  | PostUpdate int  \<comment> \<open>a \<^verbatim>\<open>POST /update\<close> request arrives\<close>
  | FetchSettles nat api_reply int  \<comment> \<open>the fetch of a cycle resolves or rejects\<close>
  | TxSettles nat tx_outcome int  \<comment> \<open>the transaction of a cycle resolves or rejects\<close>

text \<open>The first piece of a cycle, run by whoever calls \<^verbatim>\<open>checkAndUpdateScores\<close>.\<close>

definition begin_cycle :: "origin \<Rightarrow> int \<Rightarrow> system \<Rightarrow> system" where
  "begin_cycle who now sys =
     sys\<lparr>svc := mark_attempt now (svc sys), tasks := tasks sys @ [(who, AwaitFetch)]\<rparr>"

text \<open>
  The statements of \<^verbatim>\<open>start()\<close> before its \<^verbatim>\<open>await this.checkAndUpdateScores()\<close>.
\<close>

definition start_prefix :: "service \<Rightarrow> service" where
  "start_prefix s =
     s\<lparr>isRunning := True,
       serviceStatus := (serviceStatus s)\<lparr>status := ''running'', isHealthy := True\<rparr>\<rparr>"

text \<open>
  When the cycle that \<^verbatim>\<open>start()\<close> awaits returns, \<^verbatim>\<open>start()\<close> goes on to call
  \<^verbatim>\<open>setInterval\<close>.
\<close>

definition returned :: "origin \<Rightarrow> system \<Rightarrow> system" where
  "returned who sys = (if who = FromStart then sys\<lparr>intervalSet := True\<rparr> else sys)"

fun step :: "event \<Rightarrow> system \<Rightarrow> system" where
  "step (Start now) sys =
     (if isRunning (svc sys) then sys
      else begin_cycle FromStart now (sys\<lparr>svc := start_prefix (svc sys)\<rparr>))"
| "step (TimerTick now) sys =
     (if intervalSet sys \<and> isRunning (svc sys) then begin_cycle FromTimer now sys else sys)"
| "step (PostUpdate now) sys = begin_cycle FromPost now sys"
| "step (FetchSettles i reply now) sys =
     (if i < length (tasks sys) \<and> snd (tasks sys ! i) = AwaitFetch then
        (case after_fetch (feeOptionsOk sys) reply now (svc sys) of
           (t, calls, s) \<Rightarrow>
             (let who = fst (tasks sys ! i);
                  sys' = sys\<lparr>svc := s, tasks := (tasks sys)[i := (who, t)],
                             submitted := submitted sys @ calls\<rparr>
              in if t = Returned then returned who sys' else sys'))
      else sys)"
| "step (TxSettles i out now) sys =
     (if i < length (tasks sys) then
        (case tasks sys ! i of
           (who, AwaitTx blackswanScore marketPeakScore) \<Rightarrow>
             returned who
               (sys\<lparr>svc := after_tx out blackswanScore marketPeakScore now (svc sys),
                    tasks := (tasks sys)[i := (who, Returned)]\<rparr>)
         | _ \<Rightarrow> sys)
      else sys)"

fun run :: "event list \<Rightarrow> system \<Rightarrow> system" where
  "run [] sys = sys"
| "run (e # es) sys = run es (step e sys)"

text \<open>Cycles that have started and not returned, and those with a transaction pending.\<close>

definition in_flight :: "system \<Rightarrow> nat" where
  "in_flight sys = length (filter (\<lambda>(who, t). t \<noteq> Returned) (tasks sys))"

fun awaits_tx :: "task \<Rightarrow> bool" where
  "awaits_tx (AwaitTx b m) = True"
| "awaits_tx t = False"

definition pending_tx :: "system \<Rightarrow> nat" where
  "pending_tx sys = length (filter (\<lambda>(who, t). awaits_tx t) (tasks sys))"

section \<open>checkAndUpdateScores, service with IPFS publishing\<close>

text \<open>
  One analysis of the upstream reply: \<open>score\<close> is the number that \<^verbatim>\<open>Math.floor\<close>
  reads from its \<^verbatim>\<open>score\<close> field (NaN when the field is absent, since
  \<^verbatim>\<open>fetchAnalysisFromAPI\<close> checks no score), \<open>details\<close> stands for its other fields.
\<close>

record analysis =
  score :: jsnum
  details :: string

text \<open>
  What \<^verbatim>\<open>axios.get(analysisEndpoint)\<close> does; in a body, \<open>None\<close> is a falsy
  \<^verbatim>\<open>data.blackswan\<close> or \<^verbatim>\<open>data.marketPeak\<close>.
\<close>

datatype analysis_reply =
    AnalysisRequestFailed string
  | AnalysisNoBody
  | AnalysisBody "analysis option" "analysis option"

definition fetchAnalysisFromAPI :: "analysis_reply \<Rightarrow> error + analysis \<times> analysis" where
  "fetchAnalysisFromAPI reply =
     (case reply of
        AnalysisRequestFailed msg \<Rightarrow> Inl (RequestError msg)
      | AnalysisNoBody \<Rightarrow> Inl TypeError
      | AnalysisBody blackswan marketPeak \<Rightarrow>
          (case (blackswan, marketPeak) of
             (Some b, Some m) \<Rightarrow> Inr (b, m)
           | _ \<Rightarrow> Inl AnalysisExtractError))"

text \<open>
  \<^verbatim>\<open>uploadJSONToIPFS\<close>, given what \<^verbatim>\<open>pinJSONToIPFS\<close> answers for the document
  (\<open>Inl\<close> a rejection, \<open>Inr\<close> the hash): the rejection is logged and rethrown. The
  documents themselves (\<^verbatim>\<open>createAnalysisJSON\<close>) only reach the pinning service and
  are not modelled.
\<close>

definition uploadJSONToIPFS :: "string + string \<Rightarrow> error + string" where
  "uploadJSONToIPFS pinned =
     (case pinned of
        Inl msg \<Rightarrow> Inl (UploadError msg)
      | Inr ipfsHash \<Rightarrow> Inr (''ipfs://'' @ ipfsHash))"

record ipfs_env = clock_env +
  analysisReply :: analysis_reply
  pinBlackSwan :: "string + string"
  pinMarketPeak :: "string + string"

text \<open>The two uploads, in the order of the code; the first rejection is thrown.\<close>

definition upload_both :: "'e ipfs_env_scheme \<Rightarrow> error + string \<times> string" where
  "upload_both env =
     (case uploadJSONToIPFS (pinBlackSwan env) of
        Inl e \<Rightarrow> Inl e
      | Inr blackSwanIPFS \<Rightarrow>
          (case uploadJSONToIPFS (pinMarketPeak env) of
             Inl e \<Rightarrow> Inl e
           | Inr marketPeakIPFS \<Rightarrow> Inr (blackSwanIPFS, marketPeakIPFS)))"

definition updateOracleScoresAndAnalysis ::
  "'a chain_env_scheme \<Rightarrow> jsnum \<Rightarrow> jsnum \<Rightarrow> string \<Rightarrow> string \<Rightarrow> contract_call list \<times> bool" where
  "updateOracleScoresAndAnalysis env newBlackswanScore newMarketPeakScore blackSwanIPFS marketPeakIPFS =
     (if \<not> txOptionsOk env then ([], False)
      else
        let tx = UpdateScoresAndAnalysis newBlackswanScore newMarketPeakScore
                   blackSwanIPFS marketPeakIPFS
        in ([tx], receipt_ok (chain env tx)))"

record ipfs_service = service +
  lastKnownBlackSwanIPFS :: "string option"
  lastKnownMarketPeakIPFS :: "string option"

definition constructor_ipfs :: "int \<Rightarrow> ipfs_service" where
  "constructor_ipfs now =
     \<lparr>lastKnownBlackSwanScore = None, lastKnownMarketPeakScore = None, isRunning = False,
      serviceStatus =
        \<lparr>status = ''starting'', uptime = 0, startTime = now, lastUpdate = None,
         lastSuccessfulUpdate = None, updateCount = 0, errorCount = 0, lastError = None,
         isHealthy = False\<rparr>,
      lastKnownBlackSwanIPFS = None, lastKnownMarketPeakIPFS = None\<rparr>"

text \<open>The four cache assignments of an \<^verbatim>\<open>if (success)\<close> branch.\<close>

definition store_all :: "jsnum \<Rightarrow> jsnum \<Rightarrow> string \<Rightarrow> string \<Rightarrow> ipfs_service \<Rightarrow> ipfs_service" where
  "store_all blackswanScore marketPeakScore blackSwanIPFS marketPeakIPFS s =
     s\<lparr>lastKnownBlackSwanScore := Some blackswanScore,
       lastKnownMarketPeakScore := Some marketPeakScore,
       lastKnownBlackSwanIPFS := Some blackSwanIPFS,
       lastKnownMarketPeakIPFS := Some marketPeakIPFS\<rparr>"

definition checkAndUpdateScores_ipfs_try ::
  "'e ipfs_env_scheme \<Rightarrow> ipfs_service \<Rightarrow> error option \<times> contract_call list \<times> ipfs_service" where
  "checkAndUpdateScores_ipfs_try env s0 =
     (let s = mark_attempt (startedAt env) s0 in
      case fetchAnalysisFromAPI (analysisReply env) of
        Inl e \<Rightarrow> (Some e, [], s)
      | Inr (blackswan, marketPeak) \<Rightarrow>
          let blackswanScore = Math_floor (score blackswan);
              marketPeakScore = Math_floor (score marketPeak)
          in
          if lastKnownBlackSwanScore s = None \<or> lastKnownMarketPeakScore s = None then
            (case upload_both env of
               Inl e \<Rightarrow> (Some e, [], s)
             | Inr (blackSwanIPFS, marketPeakIPFS) \<Rightarrow>
                 let (calls, success) =
                       updateOracleScoresAndAnalysis env blackswanScore marketPeakScore
                         blackSwanIPFS marketPeakIPFS
                 in
                 if success then
                   (None, calls,
                    on_success (settledAt env)
                      (store_all blackswanScore marketPeakScore blackSwanIPFS marketPeakIPFS s))
                 else (None, calls, s))
          else
            let blackswanChanged = strict_neq blackswanScore (lastKnownBlackSwanScore s);
                marketPeakChanged = strict_neq marketPeakScore (lastKnownMarketPeakScore s)
            in
            if \<not> blackswanChanged \<and> \<not> marketPeakChanged then (None, [], s)
            else
              (case upload_both env of
                 Inl e \<Rightarrow> (Some e, [], s)
               | Inr (blackSwanIPFS, marketPeakIPFS) \<Rightarrow>
                   let (calls, success) =
                         updateOracleScoresAndAnalysis env blackswanScore marketPeakScore
                           blackSwanIPFS marketPeakIPFS
                   in
                   if success then
                     (None, calls,
                      on_success (settledAt env)
                        (store_all blackswanScore marketPeakScore blackSwanIPFS marketPeakIPFS s))
                   else (None, calls, on_tx_failure s)))"

definition checkAndUpdateScores_ipfs ::
  "'e ipfs_env_scheme \<Rightarrow> ipfs_service \<Rightarrow> error option \<times> contract_call list \<times> ipfs_service" where
  "checkAndUpdateScores_ipfs env s0 =
     (case checkAndUpdateScores_ipfs_try env s0 of
        (Some e, calls, s) \<Rightarrow> (None, calls, on_error e (settledAt env) s)
      | (None, calls, s) \<Rightarrow> (None, calls, s))"

text \<open>The cached scores and content references of the publishing service.\<close>

definition cache_ipfs ::
  "ipfs_service \<Rightarrow> jsnum option \<times> jsnum option \<times> string option \<times> string option" where
  "cache_ipfs s =
     (lastKnownBlackSwanScore s, lastKnownMarketPeakScore s,
      lastKnownBlackSwanIPFS s, lastKnownMarketPeakIPFS s)"

section \<open>The oracle contract's dev-wallet allow-list\<close>

type_synonym address = "160 word"

record oracle_state =
  owner :: address
  devWallets :: "address \<Rightarrow> bool"
  devWalletList :: "address list"

text \<open>The reverts of the two functions, by their \<^verbatim>\<open>require\<close>.\<close>

datatype revert =
    NotOwner  \<comment> \<open>the \<^verbatim>\<open>onlyOwner\<close> modifier\<close>
  | ZeroAddress  \<comment> \<open>"wallet cannot be zero address"\<close>
  | AlreadyAdded  \<comment> \<open>"wallet already added"\<close>
  | NotFound  \<comment> \<open>"wallet not found"\<close>

text \<open>Storage after \<^verbatim>\<open>initialize(initialOwner)\<close>: an empty mapping and an empty array.\<close>

definition initialize :: "address \<Rightarrow> oracle_state" where
  "initialize initialOwner =
     \<lparr>owner = initialOwner, devWallets = (\<lambda>a. False), devWalletList = []\<rparr>"

definition addDevWallet :: "address \<Rightarrow> address \<Rightarrow> oracle_state \<Rightarrow> revert + oracle_state" where
  "addDevWallet sender wallet s =
     (if sender \<noteq> owner s then Inl NotOwner
      else if wallet = 0 then Inl ZeroAddress
      else if devWallets s wallet then Inl AlreadyAdded
      else Inr (s\<lparr>devWallets := (devWallets s)(wallet := True),
                  devWalletList := devWalletList s @ [wallet]\<rparr>))"

text \<open>
  The \<^verbatim>\<open>for\<close> loop of \<^verbatim>\<open>removeDevWallet\<close> from index \<open>i\<close>: at the first slot that
  holds the wallet, the last element is written into the slot, the array is popped, and
  the loop breaks.
\<close>

function remove_loop :: "address \<Rightarrow> nat \<Rightarrow> address list \<Rightarrow> address list" where
  "remove_loop wallet i xs =
     (if i < length xs then
        (if xs ! i = wallet then butlast (xs[i := xs ! (length xs - 1)])
         else remove_loop wallet (i + 1) xs)
      else xs)"
  by pat_completeness auto
termination
  by (relation "measure (\<lambda>(wallet, i, xs). length xs - i)") auto

declare remove_loop.simps [simp del]

definition removeDevWallet :: "address \<Rightarrow> address \<Rightarrow> oracle_state \<Rightarrow> revert + oracle_state" where
  "removeDevWallet sender wallet s =
     (if sender \<noteq> owner s then Inl NotOwner
      else if \<not> devWallets s wallet then Inl NotFound
      else Inr (s\<lparr>devWallets := (devWallets s)(wallet := False),
                  devWalletList := remove_loop wallet 0 (devWalletList s)\<rparr>))"

text \<open>A sequence of calls to the two functions; a call that reverts changes nothing.\<close>

datatype admin_call = AddDevWallet address address | RemoveDevWallet address address

fun apply_call :: "admin_call \<Rightarrow> oracle_state \<Rightarrow> oracle_state" where
  "apply_call (AddDevWallet sender wallet) s =
     (case addDevWallet sender wallet s of Inl r \<Rightarrow> s | Inr s' \<Rightarrow> s')"
| "apply_call (RemoveDevWallet sender wallet) s =
     (case removeDevWallet sender wallet s of Inl r \<Rightarrow> s | Inr s' \<Rightarrow> s')"

fun apply_calls :: "admin_call list \<Rightarrow> oracle_state \<Rightarrow> oracle_state" where
  "apply_calls [] s = s"
| "apply_calls (c # cs) s = apply_calls cs (apply_call c s)"

text \<open>The mapping and the list agree, and the list holds no wallet twice.\<close>

definition in_sync :: "oracle_state \<Rightarrow> bool" where
  "in_sync s =
     (distinct (devWalletList s) \<and> (\<forall>a. devWallets s a = (a \<in> set (devWalletList s))))"

section \<open>Health after startup\<close>

text \<open>
  Either the service reports itself healthy or some cycle has counted an error.
\<close>

definition no_failure_yet :: "service \<Rightarrow> bool" where
  "no_failure_yet s = (isHealthy (serviceStatus s) \<or> 0 < errorCount (serviceStatus s))"

section \<open>Malformed scores\<close>

text \<open>
  The scores the specification calls malformed: missing, non-numeric, NaN, or negative.
\<close>

definition malformed :: "jsval \<Rightarrow> bool" where
  "malformed v =
     (v = Undefined \<or> typeof v \<noteq> ''number'' \<or> v = Number NaN \<or>
      (case v of Number n \<Rightarrow> lt_zero n | _ \<Rightarrow> False))"

section \<open>Scenarios\<close>

text \<open>
  Concrete states and environments, after the scenarios of the specification: the scores
  40 and 60 cached, a fetch that answers the two given scores, every submitted
  transaction ending in the given outcome, both uploads succeeding.
\<close>

definition cached_40_60 :: service where
  "cached_40_60 =
     (constructor 0)\<lparr>lastKnownBlackSwanScore := Some (Finite 40),
                      lastKnownMarketPeakScore := Some (Finite 60)\<rparr>"

definition scenario_env :: "jsval \<Rightarrow> jsval \<Rightarrow> tx_outcome \<Rightarrow> cycle_env" where
  "scenario_env bs mp out =
     \<lparr>txOptionsOk = True, chain = (\<lambda>c. out), startedAt = 10, settledAt = 20,
      apiReply = Body bs mp\<rparr>"

definition ipfs_cached_40_60 :: ipfs_service where
  "ipfs_cached_40_60 =
     (constructor_ipfs 0)
       \<lparr>lastKnownBlackSwanScore := Some (Finite 40),
        lastKnownMarketPeakScore := Some (Finite 60),
        lastKnownBlackSwanIPFS := Some ''ipfs://QmOldBlackSwan'',
        lastKnownMarketPeakIPFS := Some ''ipfs://QmOldMarketPeak''\<rparr>"

definition ipfs_scenario_env :: "jsnum \<Rightarrow> jsnum \<Rightarrow> tx_outcome \<Rightarrow> ipfs_env" where
  "ipfs_scenario_env bs mp out =
     \<lparr>txOptionsOk = True, chain = (\<lambda>c. out), startedAt = 10, settledAt = 20,
      analysisReply = AnalysisBody (Some \<lparr>score = bs, details = ''''\<rparr>)
                                   (Some \<lparr>score = mp, details = ''''\<rparr>),
      pinBlackSwan = Inr ''QmBlackSwan'', pinMarketPeak = Inr ''QmMarketPeak''\<rparr>"

text \<open>
  The contract after its owner (address 9) has added the wallets 1, 2 and 3.
\<close>

definition three_wallets :: oracle_state where
  "three_wallets =
     apply_calls [AddDevWallet 9 1, AddDevWallet 9 2, AddDevWallet 9 3] (initialize 9)"

text \<open>
  The process after \<^verbatim>\<open>start()\<close> and a first cycle that fetched 40 and 60.
\<close>

definition seeded_system :: system where
  "seeded_system =
     run [Start 1, FetchSettles 0 (Body (Number (Finite 40)) (Number (Finite 60))) 2]
       (boot 0 True)"

section \<open>Properties\<close>

subsection \<open>Auxiliary facts about one cycle of the score-only service\<close>

lemma Math_floor_isNaN [simp]: "isNaN (Math_floor n) = isNaN n"
  by (cases n) simp_all

lemma strict_neq_number: "\<not> isNaN x \<Longrightarrow> strict_neq x (Some y) = (x \<noteq> y)"
  by (cases x; cases y) simp_all

lemma fetch_ok_not_NaN:
  "fetchScoresFromAPI reply = Inr (b, m) \<Longrightarrow> \<not> isNaN b \<and> \<not> isNaN m"
  by (auto simp: fetchScoresFromAPI_def split: api_reply.splits if_splits jsval.splits)

lemma cache_helpers [simp]:
  "cache (mark_attempt t s) = cache s"
  "cache (on_error e t s) = cache s"
  "cache (on_tx_failure s) = cache s"
  "cache (on_success t s) = cache s"
  by (simp_all add: cache_def mark_attempt_def on_error_def on_tx_failure_def on_success_def)

lemma score_helpers [simp]:
  "lastKnownBlackSwanScore (mark_attempt t s) = lastKnownBlackSwanScore s"
  "lastKnownMarketPeakScore (mark_attempt t s) = lastKnownMarketPeakScore s"
  by (simp_all add: mark_attempt_def)

lemma cycle_fetch_error:
  "fetchScoresFromAPI (apiReply env) = Inl e \<Longrightarrow>
   checkAndUpdateScores env s =
     (None, [], on_error e (settledAt env) (mark_attempt (startedAt env) s))"
  by (simp add: checkAndUpdateScores_def checkAndUpdateScores_try_def Let_def)

lemma cycle_first_run:
  "fetchScoresFromAPI (apiReply env) = Inr (b, m) \<Longrightarrow>
   lastKnownBlackSwanScore s = None \<or> lastKnownMarketPeakScore s = None \<Longrightarrow>
   checkAndUpdateScores env s =
     (None, [],
      (mark_attempt (startedAt env) s)
        \<lparr>lastKnownBlackSwanScore := Some b, lastKnownMarketPeakScore := Some m\<rparr>)"
  by (auto simp add: checkAndUpdateScores_def checkAndUpdateScores_try_def Let_def)

lemma catch_none:
  "fst r = None \<Longrightarrow>
   (case r of (Some e, calls, s) \<Rightarrow> g e calls s | (None, calls, s) \<Rightarrow> (None, calls, s)) = r"
  by (cases r) auto

lemma try_steady:
  assumes f: "fetchScoresFromAPI (apiReply env) = Inr (b, m)"
    and cb: "lastKnownBlackSwanScore s = Some cb" and cm: "lastKnownMarketPeakScore s = Some cm"
  shows "checkAndUpdateScores_try env s =
     (if b = cb \<and> m = cm then (None, [], mark_attempt (startedAt env) s)
      else
        (case updateOracleScores env b m
               (Some (if b \<noteq> cb \<and> m \<noteq> cm then ''both''
                      else if b \<noteq> cb then ''blackswan'' else ''marketpeak'')) of
           (calls, success) \<Rightarrow>
             if success then
               (None, calls,
                on_success (settledAt env)
                  ((mark_attempt (startedAt env) s)
                     \<lparr>lastKnownBlackSwanScore := Some b, lastKnownMarketPeakScore := Some m\<rparr>))
             else (None, calls, on_tx_failure (mark_attempt (startedAt env) s))))"
proof -
  from f have nn: "\<not> isNaN b" "\<not> isNaN m"
    using fetch_ok_not_NaN by blast+
  have c1: "strict_neq b (Some cb) = (b \<noteq> cb)" and c2: "strict_neq m (Some cm) = (m \<noteq> cm)"
    using nn by (simp_all add: strict_neq_number del: strict_neq.simps)
  show ?thesis
    unfolding checkAndUpdateScores_try_def Let_def
    by (simp add: f cb cm c1 c2 del: strict_neq.simps split del: if_split cong: if_cong)
qed

lemma cycle_steady:
  assumes f: "fetchScoresFromAPI (apiReply env) = Inr (b, m)"
    and cb: "lastKnownBlackSwanScore s = Some cb" and cm: "lastKnownMarketPeakScore s = Some cm"
  shows "checkAndUpdateScores env s =
     (if b = cb \<and> m = cm then (None, [], mark_attempt (startedAt env) s)
      else
        (case updateOracleScores env b m
               (Some (if b \<noteq> cb \<and> m \<noteq> cm then ''both''
                      else if b \<noteq> cb then ''blackswan'' else ''marketpeak'')) of
           (calls, success) \<Rightarrow>
             if success then
               (None, calls,
                on_success (settledAt env)
                  ((mark_attempt (startedAt env) s)
                     \<lparr>lastKnownBlackSwanScore := Some b, lastKnownMarketPeakScore := Some m\<rparr>))
             else (None, calls, on_tx_failure (mark_attempt (startedAt env) s))))"
  (is "_ = ?rhs")
proof -
  have "fst ?rhs = None"
    by (cases "updateOracleScores env b m
               (Some (if b \<noteq> cb \<and> m \<noteq> cm then ''both''
                      else if b \<noteq> cb then ''blackswan'' else ''marketpeak''))") simp
  then show ?thesis
    unfolding checkAndUpdateScores_def try_steady [OF f cb cm] by (rule catch_none)
qed

lemma update_both: "txOptionsOk env \<Longrightarrow>
  updateOracleScores env b m (Some ''both'') = ([UpdateBothScores b m], receipt_ok (chain env (UpdateBothScores b m)))"
  by (simp add: updateOracleScores_def select_tx_def Let_def)

lemma update_blackswan: "txOptionsOk env \<Longrightarrow>
  updateOracleScores env b m (Some ''blackswan'') = ([UpdateBlackSwanScore b], receipt_ok (chain env (UpdateBlackSwanScore b)))"
  by (simp add: updateOracleScores_def select_tx_def Let_def)

lemma update_marketpeak: "txOptionsOk env \<Longrightarrow>
  updateOracleScores env b m (Some ''marketpeak'') = ([UpdateMarketPeakScore m], receipt_ok (chain env (UpdateMarketPeakScore m)))"
  by (simp add: updateOracleScores_def select_tx_def Let_def)

lemma update_no_options: "\<not> txOptionsOk env \<Longrightarrow> updateOracleScores env b m ut = ([], False)"
  by (simp add: updateOracleScores_def Let_def)

lemma update_default:
  "updateOracleScores env b m None = updateOracleScores env b m (Some ''both'')"
  by (simp add: updateOracleScores_def)

lemma steady_calls:
  assumes "fetchScoresFromAPI (apiReply env) = Inr (b, m)"
    and "lastKnownBlackSwanScore s = Some cb" and "lastKnownMarketPeakScore s = Some cm"
    and "txOptionsOk env"
  shows "calls_of (checkAndUpdateScores env s) =
     (if b = cb \<and> m = cm then []
      else if b \<noteq> cb \<and> m \<noteq> cm then [UpdateBothScores b m]
      else if b \<noteq> cb then [UpdateBlackSwanScore b]
      else [UpdateMarketPeakScore m])"
  using assms(4)
  by (simp add: cycle_steady [OF assms(1-3)] update_both update_blackswan update_marketpeak)

lemma steady_state:
  assumes "fetchScoresFromAPI (apiReply env) = Inr (b, m)"
    and "lastKnownBlackSwanScore s = Some cb" and "lastKnownMarketPeakScore s = Some cm"
    and "txOptionsOk env"
  shows "state_of (checkAndUpdateScores env s) =
     (if b = cb \<and> m = cm then mark_attempt (startedAt env) s
      else if receipt_ok (chain env (hd (calls_of (checkAndUpdateScores env s)))) then
        on_success (settledAt env)
          ((mark_attempt (startedAt env) s)
             \<lparr>lastKnownBlackSwanScore := Some b, lastKnownMarketPeakScore := Some m\<rparr>)
      else on_tx_failure (mark_attempt (startedAt env) s))"
  using assms(4)
  by (simp add: cycle_steady [OF assms(1-3)] update_both update_blackswan update_marketpeak)

lemma steady_no_options:
  assumes "fetchScoresFromAPI (apiReply env) = Inr (b, m)"
    and "lastKnownBlackSwanScore s = Some cb" and "lastKnownMarketPeakScore s = Some cm"
    and "\<not> txOptionsOk env"
  shows "checkAndUpdateScores env s =
     (if b = cb \<and> m = cm then (None, [], mark_attempt (startedAt env) s)
      else (None, [], on_tx_failure (mark_attempt (startedAt env) s)))"
  using assms(4)
  by (simp add: cycle_steady [OF assms(1-3)] update_no_options)

lemma never_throws: "thrown (checkAndUpdateScores env s) = None"
  by (simp add: checkAndUpdateScores_def split: prod.splits option.splits)

lemma post_update_200:
  "fst (post_update env now s) = (200, UpdateDone ''Update check completed'' now)"
proof -
  obtain calls s' where "checkAndUpdateScores env s = (None, calls, s')"
    using never_throws [of env s] by (cases "checkAndUpdateScores env s") auto
  then show ?thesis by (simp add: post_update_def)
qed

lemmas scenario_defs =
  cached_40_60_def scenario_env_def ipfs_cached_40_60_def ipfs_scenario_env_def
  constructor_def constructor_ipfs_def

lemmas cycle_defs =
  checkAndUpdateScores_def checkAndUpdateScores_try_def fetchScoresFromAPI_def
  updateOracleScores_def select_tx_def receipt_ok_def
  mark_attempt_def on_success_def on_tx_failure_def on_error_def cache_def Let_def

lemmas ipfs_cycle_defs =
  checkAndUpdateScores_ipfs_def checkAndUpdateScores_ipfs_try_def fetchAnalysisFromAPI_def
  upload_both_def uploadJSONToIPFS_def updateOracleScoresAndAnalysis_def receipt_ok_def
  store_all_def mark_attempt_def on_success_def on_tx_failure_def on_error_def cache_ipfs_def
  Let_def

subsection \<open>An unrecognised update type\<close>

text \<open>
  Claim C9. For every \<^verbatim>\<open>updateType\<close> passed to it other than "both", "blackswan"
  and "marketpeak", \<^verbatim>\<open>updateOracleScores\<close> submits no contract call and returns
  \<^verbatim>\<open>false\<close>; the TypeError of \<^verbatim>\<open>tx.wait()\<close> on the undefined transaction stays
  inside the function.
\<close>

theorem unknown_update_type_submits_nothing:
  assumes "updateType \<noteq> ''both''" and "updateType \<noteq> ''blackswan''"
    and "updateType \<noteq> ''marketpeak''"
  shows "updateOracleScores env newBlackswanScore newMarketPeakScore (Some updateType) =
           ([], False)"
  using assms by (simp add: updateOracleScores_def select_tx_def Let_def)

text \<open>
  The theorem at the update type "bogus".
\<close>

theorem unknown_update_type_witness:
  "''bogus'' \<noteq> ''both'' \<and> ''bogus'' \<noteq> ''blackswan'' \<and> ''bogus'' \<noteq> ''marketpeak'' \<and>
   updateOracleScores \<lparr>txOptionsOk = True, chain = (\<lambda>c. Receipt 1)\<rparr>
     (Finite 41) (Finite 60) (Some ''bogus'') = ([], False)"
  using unknown_update_type_submits_nothing
    [of "''bogus''" "\<lparr>txOptionsOk = True, chain = (\<lambda>c. Receipt 1)\<rparr>" "Finite 41" "Finite 60"]
  by simp

subsection \<open>The manual trigger\<close>

text \<open>
  Claim C7. \<^verbatim>\<open>POST /update\<close> is meant to answer 500 with \<^verbatim>\<open>success: false\<close> when
  the cycle fails. Here the cycle fails (the fetched blackswan score is -1 and the error is
  recorded in \<^verbatim>\<open>lastError\<close>), and the handler still answers 200 with
  \<^verbatim>\<open>success: true\<close>: \<^verbatim>\<open>checkAndUpdateScores\<close> catches every error itself
  (\<open>never_throws\<close>), so the handler's \<^verbatim>\<open>catch\<close> branch is never taken
  (\<open>post_update_200\<close>).
\<close>

theorem manual_update_hides_failure:
  "fst (post_update
      \<lparr>txOptionsOk = True, chain = (\<lambda>c. Receipt 1), startedAt = 10, settledAt = 20,
       apiReply = Body (Number (Finite (- 1))) (Number (Finite 50))\<rparr> 30
      ((constructor 0)\<lparr>lastKnownBlackSwanScore := Some (Finite 40),
                        lastKnownMarketPeakScore := Some (Finite 60)\<rparr>)) =
     (200, UpdateDone ''Update check completed'' 30) \<and>
   lastError (serviceStatus (state_of (post_update
      \<lparr>txOptionsOk = True, chain = (\<lambda>c. Receipt 1), startedAt = 10, settledAt = 20,
       apiReply = Body (Number (Finite (- 1))) (Number (Finite 50))\<rparr> 30
      ((constructor 0)\<lparr>lastKnownBlackSwanScore := Some (Finite 40),
                        lastKnownMarketPeakScore := Some (Finite 60)\<rparr>)))) =
     Some (InvalidBlackswanScore (Number (Finite (- 1))), 20)"
  by (simp add: post_update_def checkAndUpdateScores_def checkAndUpdateScores_try_def
      fetchScoresFromAPI_def on_error_def mark_attempt_def constructor_def)

subsection \<open>Auxiliary facts about one cycle of the publishing service\<close>

lemma cache_ipfs_helpers [simp]:
  "cache_ipfs (mark_attempt t s) = cache_ipfs s"
  "cache_ipfs (on_error e t s) = cache_ipfs s"
  "cache_ipfs (on_tx_failure s) = cache_ipfs s"
  "cache_ipfs (on_success t s) = cache_ipfs s"
  "cache_ipfs (store_all b m r1 r2 s) = (Some b, Some m, Some r1, Some r2)"
  by (simp_all add: cache_ipfs_def mark_attempt_def on_error_def on_tx_failure_def
      on_success_def store_all_def)

lemma cache_store [simp]:
  "cache (s\<lparr>lastKnownBlackSwanScore := Some b, lastKnownMarketPeakScore := Some m\<rparr>) =
     (Some b, Some m)"
  by (simp add: cache_def)

lemma publish_call:
  "txOptionsOk env \<Longrightarrow>
   updateOracleScoresAndAnalysis env b m r1 r2 =
     ([UpdateScoresAndAnalysis b m r1 r2],
      receipt_ok (chain env (UpdateScoresAndAnalysis b m r1 r2)))"
  by (simp add: updateOracleScoresAndAnalysis_def Let_def)

lemma publish_no_options:
  "\<not> txOptionsOk env \<Longrightarrow> updateOracleScoresAndAnalysis env b m r1 r2 = ([], False)"
  by (simp add: updateOracleScoresAndAnalysis_def)

lemma ipfs_fetch_error:
  "fetchAnalysisFromAPI (analysisReply env) = Inl e \<Longrightarrow>
   checkAndUpdateScores_ipfs env s =
     (None, [], on_error e (settledAt env) (mark_attempt (startedAt env) s))"
  by (simp add: checkAndUpdateScores_ipfs_def checkAndUpdateScores_ipfs_try_def Let_def)

lemma ipfs_try_first_run:
  assumes f: "fetchAnalysisFromAPI (analysisReply env) = Inr (a1, a2)"
    and first: "lastKnownBlackSwanScore s = None \<or> lastKnownMarketPeakScore s = None"
  shows "checkAndUpdateScores_ipfs_try env s =
     (case upload_both env of
        Inl e \<Rightarrow> (Some e, [], mark_attempt (startedAt env) s)
      | Inr (r1, r2) \<Rightarrow>
          (case updateOracleScoresAndAnalysis env (Math_floor (score a1)) (Math_floor (score a2))
                  r1 r2 of
             (calls, success) \<Rightarrow>
               if success then
                 (None, calls,
                  on_success (settledAt env)
                    (store_all (Math_floor (score a1)) (Math_floor (score a2)) r1 r2
                       (mark_attempt (startedAt env) s)))
               else (None, calls, mark_attempt (startedAt env) s)))"
  unfolding checkAndUpdateScores_ipfs_try_def Let_def
  by (simp add: f first [THEN eqTrueI] split del: if_split cong: if_cong sum.case_cong)

lemma ipfs_try_steady:
  assumes f: "fetchAnalysisFromAPI (analysisReply env) = Inr (a1, a2)"
    and cb: "lastKnownBlackSwanScore s = Some cb" and cm: "lastKnownMarketPeakScore s = Some cm"
  shows "checkAndUpdateScores_ipfs_try env s =
     (if \<not> strict_neq (Math_floor (score a1)) (Some cb) \<and>
         \<not> strict_neq (Math_floor (score a2)) (Some cm)
      then (None, [], mark_attempt (startedAt env) s)
      else
        (case upload_both env of
           Inl e \<Rightarrow> (Some e, [], mark_attempt (startedAt env) s)
         | Inr (r1, r2) \<Rightarrow>
             (case updateOracleScoresAndAnalysis env (Math_floor (score a1))
                     (Math_floor (score a2)) r1 r2 of
                (calls, success) \<Rightarrow>
                  if success then
                    (None, calls,
                     on_success (settledAt env)
                       (store_all (Math_floor (score a1)) (Math_floor (score a2)) r1 r2
                          (mark_attempt (startedAt env) s)))
                  else (None, calls, on_tx_failure (mark_attempt (startedAt env) s)))))"
  unfolding checkAndUpdateScores_ipfs_try_def Let_def
  by (simp add: f cb cm del: strict_neq.simps split del: if_split cong: if_cong sum.case_cong)

lemma ipfs_first_run:
  assumes f: "fetchAnalysisFromAPI (analysisReply env) = Inr (a1, a2)"
    and first: "lastKnownBlackSwanScore s = None \<or> lastKnownMarketPeakScore s = None"
    and u: "upload_both env = Inr (r1, r2)"
    and ok: "txOptionsOk env"
  shows "checkAndUpdateScores_ipfs env s =
     (None, [UpdateScoresAndAnalysis (Math_floor (score a1)) (Math_floor (score a2)) r1 r2],
      if receipt_ok (chain env
            (UpdateScoresAndAnalysis (Math_floor (score a1)) (Math_floor (score a2)) r1 r2))
      then on_success (settledAt env)
             (store_all (Math_floor (score a1)) (Math_floor (score a2)) r1 r2
                (mark_attempt (startedAt env) s))
      else mark_attempt (startedAt env) s)"
  by (simp add: checkAndUpdateScores_ipfs_def ipfs_try_first_run [OF f first] u
      publish_call [OF ok])

lemma ipfs_steady:
  assumes f: "fetchAnalysisFromAPI (analysisReply env) = Inr (a1, a2)"
    and cb: "lastKnownBlackSwanScore s = Some cb" and cm: "lastKnownMarketPeakScore s = Some cm"
    and u: "upload_both env = Inr (r1, r2)"
    and ok: "txOptionsOk env"
  shows "checkAndUpdateScores_ipfs env s =
     (if \<not> strict_neq (Math_floor (score a1)) (Some cb) \<and>
         \<not> strict_neq (Math_floor (score a2)) (Some cm)
      then (None, [], mark_attempt (startedAt env) s)
      else
        (None, [UpdateScoresAndAnalysis (Math_floor (score a1)) (Math_floor (score a2)) r1 r2],
         if receipt_ok (chain env
               (UpdateScoresAndAnalysis (Math_floor (score a1)) (Math_floor (score a2)) r1 r2))
         then on_success (settledAt env)
                (store_all (Math_floor (score a1)) (Math_floor (score a2)) r1 r2
                   (mark_attempt (startedAt env) s))
         else on_tx_failure (mark_attempt (startedAt env) s)))"
  by (simp add: checkAndUpdateScores_ipfs_def ipfs_try_steady [OF f cb cm] u
      publish_call [OF ok] del: strict_neq.simps)

text \<open>The cache of the publishing service changes only with a confirmed transaction.\<close>

lemma ipfs_cache_only_on_success:
  "cache_ipfs (state_of (checkAndUpdateScores_ipfs env s)) = cache_ipfs s \<or>
   (\<exists>c. calls_of (checkAndUpdateScores_ipfs env s) = [c] \<and> receipt_ok (chain env c))"
proof (cases "fetchAnalysisFromAPI (analysisReply env)")
  case (Inl e)
  then show ?thesis by (simp add: ipfs_fetch_error)
next
  case (Inr p)
  obtain a1 a2 where f: "fetchAnalysisFromAPI (analysisReply env) = Inr (a1, a2)"
    using Inr by (cases p) auto
  show ?thesis
  proof (cases "lastKnownBlackSwanScore s = None \<or> lastKnownMarketPeakScore s = None")
    case True
    show ?thesis
      by (cases "upload_both env"; cases "txOptionsOk env")
         (auto simp: checkAndUpdateScores_ipfs_def ipfs_try_first_run [OF f True]
            publish_call publish_no_options)
  next
    case False
    then obtain cb cm where cb: "lastKnownBlackSwanScore s = Some cb"
      and cm: "lastKnownMarketPeakScore s = Some cm" by auto
    show ?thesis
      by (cases "upload_both env"; cases "txOptionsOk env")
         (auto simp: checkAndUpdateScores_ipfs_def ipfs_try_steady [OF f cb cm]
            publish_call publish_no_options simp del: strict_neq.simps)
  qed
qed

subsection \<open>The update action and the changed set\<close>

text \<open>
  Claim C1, as the code has it. In a steady-state cycle whose fetch succeeds and whose
  fee overrides parse, the score-only service makes no contract call when neither score
  differs from the cache, calls exactly \<^verbatim>\<open>updateBlackSwanScore\<close> or
  \<^verbatim>\<open>updateMarketPeakScore\<close> when exactly one differs, and exactly
  \<^verbatim>\<open>updateBothScores\<close> when both differ. The publishing service (fetch and both
  uploads succeeding) makes no call when neither differs and otherwise, whether one or
  both differ, exactly one combined \<^verbatim>\<open>updateScoresAndAnalysis\<close> call.
\<close>

theorem update_action_follows_changed_set:
  "(fetchScoresFromAPI (apiReply env) = Inr (b, m) \<and>
    lastKnownBlackSwanScore s = Some cb \<and> lastKnownMarketPeakScore s = Some cm \<and>
    txOptionsOk env \<longrightarrow>
    calls_of (checkAndUpdateScores env s) =
      (if b = cb \<and> m = cm then []
       else if b \<noteq> cb \<and> m \<noteq> cm then [UpdateBothScores b m]
       else if b \<noteq> cb then [UpdateBlackSwanScore b]
       else [UpdateMarketPeakScore m])) \<and>
   (fetchAnalysisFromAPI (analysisReply envi) = Inr (a1, a2) \<and>
    upload_both envi = Inr (r1, r2) \<and>
    lastKnownBlackSwanScore si = Some cbi \<and> lastKnownMarketPeakScore si = Some cmi \<and>
    txOptionsOk envi \<longrightarrow>
    calls_of (checkAndUpdateScores_ipfs envi si) =
      (if \<not> strict_neq (Math_floor (score a1)) (Some cbi) \<and>
          \<not> strict_neq (Math_floor (score a2)) (Some cmi)
       then []
       else [UpdateScoresAndAnalysis (Math_floor (score a1)) (Math_floor (score a2)) r1 r2]))"
  by (auto simp: steady_calls ipfs_steady simp del: strict_neq.simps)

text \<open>
  The claim as stated fails on the publishing service: with 40 and 60 cached and 40 and 75
  fetched only the market peak score differs, and the call made is the combined
  \<^verbatim>\<open>updateScoresAndAnalysis\<close>, not \<^verbatim>\<open>updateMarketPeakScore\<close>.
\<close>

theorem changed_set_counterexample:
  "calls_of (checkAndUpdateScores_ipfs
      (ipfs_scenario_env (Finite 40) (Finite 75) (Receipt 1)) ipfs_cached_40_60) =
     [UpdateScoresAndAnalysis (Finite 40) (Finite 75) ''ipfs://QmBlackSwan'' ''ipfs://QmMarketPeak'']"
  by (simp add: scenario_defs ipfs_cycle_defs)

text \<open>
  The theorem at the scenario of the specification (40 and 60 cached, 40 and 75 fetched)
  for the score-only service, and at 41 and 75 fetched for the publishing service.
\<close>

theorem changed_set_witness:
  "fetchScoresFromAPI (apiReply (scenario_env (Number (Finite 40)) (Number (Finite 75)) (Receipt 1)))
     = Inr (Finite 40, Finite 75) \<and>
   calls_of (checkAndUpdateScores
      (scenario_env (Number (Finite 40)) (Number (Finite 75)) (Receipt 1)) cached_40_60) =
     [UpdateMarketPeakScore (Finite 75)] \<and>
   upload_both (ipfs_scenario_env (Finite 41) (Finite 75) (Receipt 1)) =
     Inr (''ipfs://QmBlackSwan'', ''ipfs://QmMarketPeak'') \<and>
   calls_of (checkAndUpdateScores_ipfs
      (ipfs_scenario_env (Finite 41) (Finite 75) (Receipt 1)) ipfs_cached_40_60) =
     [UpdateScoresAndAnalysis (Finite 41) (Finite 75) ''ipfs://QmBlackSwan'' ''ipfs://QmMarketPeak'']"
proof -
  have h1: "fetchScoresFromAPI
      (apiReply (scenario_env (Number (Finite 40)) (Number (Finite 75)) (Receipt 1)))
     = Inr (Finite 40, Finite 75)"
    by (simp add: scenario_env_def fetchScoresFromAPI_def)
  have h2: "lastKnownBlackSwanScore cached_40_60 = Some (Finite 40)"
    "lastKnownMarketPeakScore cached_40_60 = Some (Finite 60)"
    "txOptionsOk (scenario_env (Number (Finite 40)) (Number (Finite 75)) (Receipt 1))"
    by (simp_all add: scenario_defs)
  have h3: "fetchAnalysisFromAPI
      (analysisReply (ipfs_scenario_env (Finite 41) (Finite 75) (Receipt 1)))
     = Inr (\<lparr>score = Finite 41, details = ''''\<rparr>, \<lparr>score = Finite 75, details = ''''\<rparr>)"
    by (simp add: ipfs_scenario_env_def fetchAnalysisFromAPI_def)
  have h4: "upload_both (ipfs_scenario_env (Finite 41) (Finite 75) (Receipt 1)) =
     Inr (''ipfs://QmBlackSwan'', ''ipfs://QmMarketPeak'')"
    by (simp add: ipfs_scenario_env_def upload_both_def uploadJSONToIPFS_def)
  have h5: "lastKnownBlackSwanScore ipfs_cached_40_60 = Some (Finite 40)"
    "lastKnownMarketPeakScore ipfs_cached_40_60 = Some (Finite 60)"
    "txOptionsOk (ipfs_scenario_env (Finite 41) (Finite 75) (Receipt 1))"
    by (simp_all add: scenario_defs)
  show ?thesis
    using update_action_follows_changed_set
      [of "scenario_env (Number (Finite 40)) (Number (Finite 75)) (Receipt 1)"
          "Finite 40" "Finite 75" cached_40_60 "Finite 40" "Finite 60"
          "ipfs_scenario_env (Finite 41) (Finite 75) (Receipt 1)"
          "\<lparr>score = Finite 41, details = ''''\<rparr>" "\<lparr>score = Finite 75, details = ''''\<rparr>"
          "''ipfs://QmBlackSwan''" "''ipfs://QmMarketPeak''" ipfs_cached_40_60
          "Finite 40" "Finite 60"]
      h1 h2 h3 h4 h5
    by simp
qed

subsection \<open>The first cycle\<close>

text \<open>
  Claim C3, as the code has it. While either cached score is \<^verbatim>\<open>null\<close>, the
  publishing service whose fetch and uploads succeed (and whose fee overrides parse) makes
  exactly one \<^verbatim>\<open>updateScoresAndAnalysis\<close> call whatever the fetched and cached
  values are, and the cache takes this cycle's values exactly when the receipt reports
  success. The score-only service makes no contract call in that cycle and caches the
  fetched scores at once.
\<close>

theorem first_cycle_behaviour:
  "((lastKnownBlackSwanScore si = None \<or> lastKnownMarketPeakScore si = None) \<and>
    fetchAnalysisFromAPI (analysisReply envi) = Inr (a1, a2) \<and>
    upload_both envi = Inr (r1, r2) \<and> txOptionsOk envi \<longrightarrow>
    calls_of (checkAndUpdateScores_ipfs envi si) =
      [UpdateScoresAndAnalysis (Math_floor (score a1)) (Math_floor (score a2)) r1 r2] \<and>
    cache_ipfs (state_of (checkAndUpdateScores_ipfs envi si)) =
      (if receipt_ok (chain envi
            (UpdateScoresAndAnalysis (Math_floor (score a1)) (Math_floor (score a2)) r1 r2))
       then (Some (Math_floor (score a1)), Some (Math_floor (score a2)), Some r1, Some r2)
       else cache_ipfs si)) \<and>
   ((lastKnownBlackSwanScore s = None \<or> lastKnownMarketPeakScore s = None) \<and>
    fetchScoresFromAPI (apiReply env) = Inr (b, m) \<longrightarrow>
    calls_of (checkAndUpdateScores env s) = [] \<and>
    cache (state_of (checkAndUpdateScores env s)) = (Some b, Some m))"
  by (auto simp: ipfs_first_run cycle_first_run)

text \<open>
  The claim as stated fails on the score-only service: its first cycle, on the state the
  constructor leaves, writes nothing on chain and seeds the cache all the same.
\<close>

theorem first_cycle_counterexample:
  "cache (constructor 0) = (None, None) \<and>
   calls_of (checkAndUpdateScores
      (scenario_env (Number (Finite 40)) (Number (Finite 75)) (Receipt 1)) (constructor 0)) = [] \<and>
   cache (state_of (checkAndUpdateScores
      (scenario_env (Number (Finite 40)) (Number (Finite 75)) (Receipt 1)) (constructor 0))) =
     (Some (Finite 40), Some (Finite 75))"
  by (simp add: scenario_defs cycle_defs)

text \<open>
  The theorem at the state the constructors leave, with 40 and 60 fetched.
\<close>

theorem first_cycle_witness:
  "lastKnownBlackSwanScore (constructor_ipfs 0) = None \<and>
   upload_both (ipfs_scenario_env (Finite 40) (Finite 60) (Receipt 1)) =
     Inr (''ipfs://QmBlackSwan'', ''ipfs://QmMarketPeak'') \<and>
   calls_of (checkAndUpdateScores_ipfs
      (ipfs_scenario_env (Finite 40) (Finite 60) (Receipt 1)) (constructor_ipfs 0)) =
     [UpdateScoresAndAnalysis (Finite 40) (Finite 60) ''ipfs://QmBlackSwan'' ''ipfs://QmMarketPeak''] \<and>
   cache_ipfs (state_of (checkAndUpdateScores_ipfs
      (ipfs_scenario_env (Finite 40) (Finite 60) (Receipt 1)) (constructor_ipfs 0))) =
     (Some (Finite 40), Some (Finite 60), Some ''ipfs://QmBlackSwan'', Some ''ipfs://QmMarketPeak'') \<and>
   lastKnownBlackSwanScore (constructor 0) = None \<and>
   fetchScoresFromAPI (apiReply (scenario_env (Number (Finite 40)) (Number (Finite 60)) (Receipt 1)))
     = Inr (Finite 40, Finite 60) \<and>
   calls_of (checkAndUpdateScores
      (scenario_env (Number (Finite 40)) (Number (Finite 60)) (Receipt 1)) (constructor 0)) = [] \<and>
   cache (state_of (checkAndUpdateScores
      (scenario_env (Number (Finite 40)) (Number (Finite 60)) (Receipt 1)) (constructor 0))) =
     (Some (Finite 40), Some (Finite 60))"
proof -
  have h1: "lastKnownBlackSwanScore (constructor_ipfs 0) = None"
    "lastKnownBlackSwanScore (constructor 0) = None"
    by (simp_all add: scenario_defs)
  have h2: "fetchAnalysisFromAPI
      (analysisReply (ipfs_scenario_env (Finite 40) (Finite 60) (Receipt 1)))
     = Inr (\<lparr>score = Finite 40, details = ''''\<rparr>, \<lparr>score = Finite 60, details = ''''\<rparr>)"
    by (simp add: ipfs_scenario_env_def fetchAnalysisFromAPI_def)
  have h3: "upload_both (ipfs_scenario_env (Finite 40) (Finite 60) (Receipt 1)) =
     Inr (''ipfs://QmBlackSwan'', ''ipfs://QmMarketPeak'')"
    by (simp add: ipfs_scenario_env_def upload_both_def uploadJSONToIPFS_def)
  have h4: "txOptionsOk (ipfs_scenario_env (Finite 40) (Finite 60) (Receipt 1))"
    "chain (ipfs_scenario_env (Finite 40) (Finite 60) (Receipt 1)) = (\<lambda>c. Receipt 1)"
    by (simp_all add: scenario_defs)
  have h5: "fetchScoresFromAPI
      (apiReply (scenario_env (Number (Finite 40)) (Number (Finite 60)) (Receipt 1)))
     = Inr (Finite 40, Finite 60)"
    by (simp add: scenario_env_def fetchScoresFromAPI_def)
  show ?thesis
    using first_cycle_behaviour
      [of "constructor_ipfs 0" "ipfs_scenario_env (Finite 40) (Finite 60) (Receipt 1)"
          "\<lparr>score = Finite 40, details = ''''\<rparr>" "\<lparr>score = Finite 60, details = ''''\<rparr>"
          "''ipfs://QmBlackSwan''" "''ipfs://QmMarketPeak''"
          "constructor 0" "scenario_env (Number (Finite 40)) (Number (Finite 60)) (Receipt 1)"
          "Finite 40" "Finite 60"]
      h1 h2 h3 h4 h5
    by (simp add: receipt_ok_def)
qed

subsection \<open>Outcome of a steady-state cycle\<close>

lemma steady_outcome:
  assumes f: "fetchScoresFromAPI (apiReply env) = Inr (b, m)"
    and cb: "lastKnownBlackSwanScore s = Some cb" and cm: "lastKnownMarketPeakScore s = Some cm"
    and c: "calls_of (checkAndUpdateScores env s) = [c]"
  shows "txOptionsOk env \<and> \<not> (b = cb \<and> m = cm) \<and>
         c = (if b \<noteq> cb \<and> m \<noteq> cm then UpdateBothScores b m
              else if b \<noteq> cb then UpdateBlackSwanScore b else UpdateMarketPeakScore m) \<and>
         state_of (checkAndUpdateScores env s) =
           (if receipt_ok (chain env c) then
              on_success (settledAt env)
                ((mark_attempt (startedAt env) s)
                   \<lparr>lastKnownBlackSwanScore := Some b, lastKnownMarketPeakScore := Some m\<rparr>)
            else on_tx_failure (mark_attempt (startedAt env) s))"
proof -
  have ok: "txOptionsOk env"
  proof (rule ccontr)
    assume "\<not> txOptionsOk env"
    from steady_no_options [OF f cb cm this] c show False by (simp split: if_splits)
  qed
  from steady_calls [OF f cb cm ok] c
  have ch: "\<not> (b = cb \<and> m = cm)"
    and ceq: "c = (if b \<noteq> cb \<and> m \<noteq> cm then UpdateBothScores b m
                   else if b \<noteq> cb then UpdateBlackSwanScore b else UpdateMarketPeakScore m)"
    by (auto split: if_splits)
  have hd: "hd (calls_of (checkAndUpdateScores env s)) = c" using c by simp
  from steady_state [OF f cb cm ok] ch
  have "state_of (checkAndUpdateScores env s) =
           (if receipt_ok (chain env c) then
              on_success (settledAt env)
                ((mark_attempt (startedAt env) s)
                   \<lparr>lastKnownBlackSwanScore := Some b, lastKnownMarketPeakScore := Some m\<rparr>)
            else on_tx_failure (mark_attempt (startedAt env) s))"
    unfolding hd by simp
  with ok ch ceq show ?thesis by blast
qed

lemma steady_cache_iff:
  assumes cb: "lastKnownBlackSwanScore s = Some cb" and cm: "lastKnownMarketPeakScore s = Some cm"
  shows "(cache (state_of (checkAndUpdateScores env s)) \<noteq> cache s) =
         (\<exists>c. calls_of (checkAndUpdateScores env s) = [c] \<and> receipt_ok (chain env c))"
proof (cases "fetchScoresFromAPI (apiReply env)")
  case (Inl e)
  then show ?thesis by (simp add: cycle_fetch_error)
next
  case (Inr p)
  obtain b m where f: "fetchScoresFromAPI (apiReply env) = Inr (b, m)"
    using Inr by (cases p) auto
  have cs: "cache s = (Some cb, Some cm)" using cb cm by (simp add: cache_def)
  show ?thesis
  proof (cases "calls_of (checkAndUpdateScores env s)")
    case Nil
    have "cache (state_of (checkAndUpdateScores env s)) = cache s"
    proof (cases "txOptionsOk env")
      case True
      from steady_calls [OF f cb cm True] Nil have "b = cb \<and> m = cm"
        by (auto split: if_splits)
      then show ?thesis by (simp add: cycle_steady [OF f cb cm])
    next
      case False
      then show ?thesis by (simp add: steady_no_options [OF f cb cm])
    qed
    with Nil show ?thesis by simp
  next
    case (Cons c cs')
    have ok: "txOptionsOk env"
    proof (rule ccontr)
      assume "\<not> txOptionsOk env"
      from steady_no_options [OF f cb cm this] Cons show False by (simp split: if_splits)
    qed
    from steady_calls [OF f cb cm ok] Cons have one: "calls_of (checkAndUpdateScores env s) = [c]"
      by (auto split: if_splits)
    from steady_outcome [OF f cb cm one]
    have ch: "\<not> (b = cb \<and> m = cm)"
      and st: "state_of (checkAndUpdateScores env s) =
           (if receipt_ok (chain env c) then
              on_success (settledAt env)
                ((mark_attempt (startedAt env) s)
                   \<lparr>lastKnownBlackSwanScore := Some b, lastKnownMarketPeakScore := Some m\<rparr>)
            else on_tx_failure (mark_attempt (startedAt env) s))"
      by blast+
    show ?thesis
      using one ch cs by (auto simp: st)
  qed
qed

lemma steady_retry:
  assumes f: "fetchScoresFromAPI (apiReply env) = Inr (b, m)"
    and cb: "lastKnownBlackSwanScore s = Some cb" and cm: "lastKnownMarketPeakScore s = Some cm"
    and c: "calls_of (checkAndUpdateScores env s) = [c]"
    and failed: "\<not> receipt_ok (chain env c)"
    and same: "apiReply env2 = apiReply env" and ok2: "txOptionsOk env2"
  shows "calls_of (checkAndUpdateScores env2 (state_of (checkAndUpdateScores env s))) = [c]"
proof -
  from steady_outcome [OF f cb cm c] failed
  have ch: "\<not> (b = cb \<and> m = cm)"
    and ceq: "c = (if b \<noteq> cb \<and> m \<noteq> cm then UpdateBothScores b m
                   else if b \<noteq> cb then UpdateBlackSwanScore b else UpdateMarketPeakScore m)"
    and st: "state_of (checkAndUpdateScores env s) = on_tx_failure (mark_attempt (startedAt env) s)"
    by auto
  have cb': "lastKnownBlackSwanScore (state_of (checkAndUpdateScores env s)) = Some cb"
    and cm': "lastKnownMarketPeakScore (state_of (checkAndUpdateScores env s)) = Some cm"
    using cb cm by (simp_all add: st on_tx_failure_def mark_attempt_def)
  have f2: "fetchScoresFromAPI (apiReply env2) = Inr (b, m)" using f same by simp
  from steady_calls [OF f2 cb' cm' ok2] ch ceq show ?thesis by auto
qed

subsection \<open>Outcome of a cycle of the publishing service\<close>

lemma ipfs_no_options:
  assumes "\<not> txOptionsOk env"
  shows "calls_of (checkAndUpdateScores_ipfs env s) = []"
proof (cases "fetchAnalysisFromAPI (analysisReply env)")
  case (Inl e)
  then show ?thesis by (simp add: ipfs_fetch_error)
next
  case (Inr p)
  obtain a1 a2 where f: "fetchAnalysisFromAPI (analysisReply env) = Inr (a1, a2)"
    using Inr by (cases p) auto
  show ?thesis
  proof (cases "lastKnownBlackSwanScore s = None \<or> lastKnownMarketPeakScore s = None")
    case True
    show ?thesis
      using assms
      by (cases "upload_both env")
         (auto simp: checkAndUpdateScores_ipfs_def ipfs_try_first_run [OF f True]
            publish_no_options)
  next
    case False
    then obtain cb cm where cb: "lastKnownBlackSwanScore s = Some cb"
      and cm: "lastKnownMarketPeakScore s = Some cm" by auto
    show ?thesis
      using assms
      by (cases "upload_both env")
         (auto simp: checkAndUpdateScores_ipfs_def ipfs_try_steady [OF f cb cm]
            publish_no_options simp del: strict_neq.simps)
  qed
qed

lemma ipfs_calls:
  assumes f: "fetchAnalysisFromAPI (analysisReply env) = Inr (a1, a2)"
    and u: "upload_both env = Inr (r1, r2)" and ok: "txOptionsOk env"
  shows "calls_of (checkAndUpdateScores_ipfs env s) =
     (if strict_neq (Math_floor (score a1)) (lastKnownBlackSwanScore s) \<or>
         strict_neq (Math_floor (score a2)) (lastKnownMarketPeakScore s)
      then [UpdateScoresAndAnalysis (Math_floor (score a1)) (Math_floor (score a2)) r1 r2]
      else [])"
proof (cases "lastKnownBlackSwanScore s = None \<or> lastKnownMarketPeakScore s = None")
  case True
  then have "strict_neq (Math_floor (score a1)) (lastKnownBlackSwanScore s) \<or>
         strict_neq (Math_floor (score a2)) (lastKnownMarketPeakScore s)"
    by auto
  then show ?thesis by (simp add: ipfs_first_run [OF f True u ok] del: strict_neq.simps)
next
  case False
  then obtain cb cm where cb: "lastKnownBlackSwanScore s = Some cb"
    and cm: "lastKnownMarketPeakScore s = Some cm" by auto
  show ?thesis
    by (simp add: ipfs_steady [OF f cb cm u ok] del: strict_neq.simps) (simp add: cb cm)
qed

lemma ipfs_outcome:
  assumes f: "fetchAnalysisFromAPI (analysisReply env) = Inr (a1, a2)"
    and u: "upload_both env = Inr (r1, r2)"
    and c: "calls_of (checkAndUpdateScores_ipfs env s) = [c]"
  shows "txOptionsOk env \<and>
         c = UpdateScoresAndAnalysis (Math_floor (score a1)) (Math_floor (score a2)) r1 r2 \<and>
         (strict_neq (Math_floor (score a1)) (lastKnownBlackSwanScore s) \<or>
          strict_neq (Math_floor (score a2)) (lastKnownMarketPeakScore s)) \<and>
         cache_ipfs (state_of (checkAndUpdateScores_ipfs env s)) =
           (if receipt_ok (chain env c)
            then (Some (Math_floor (score a1)), Some (Math_floor (score a2)), Some r1, Some r2)
            else cache_ipfs s)"
proof -
  have ok: "txOptionsOk env"
    using ipfs_no_options [of env s] c by auto
  from ipfs_calls [OF f u ok, of s] c
  have ch: "strict_neq (Math_floor (score a1)) (lastKnownBlackSwanScore s) \<or>
          strict_neq (Math_floor (score a2)) (lastKnownMarketPeakScore s)"
    and ceq: "c = UpdateScoresAndAnalysis (Math_floor (score a1)) (Math_floor (score a2)) r1 r2"
    by (auto split: if_splits simp del: strict_neq.simps)
  have "cache_ipfs (state_of (checkAndUpdateScores_ipfs env s)) =
           (if receipt_ok (chain env c)
            then (Some (Math_floor (score a1)), Some (Math_floor (score a2)), Some r1, Some r2)
            else cache_ipfs s)"
  proof (cases "lastKnownBlackSwanScore s = None \<or> lastKnownMarketPeakScore s = None")
    case True
    show ?thesis by (simp add: ipfs_first_run [OF f True u ok] ceq)
  next
    case False
    then obtain cb cm where cb: "lastKnownBlackSwanScore s = Some cb"
      and cm: "lastKnownMarketPeakScore s = Some cm" by auto
    from ch have cond: "(\<not> strict_neq (Math_floor (score a1)) (Some cb) \<and>
         \<not> strict_neq (Math_floor (score a2)) (Some cm)) = False"
      unfolding cb cm by blast
    show ?thesis
      unfolding ipfs_steady [OF f cb cm u ok] cond ceq by simp
  qed
  with ok ceq ch show ?thesis by blast
qed

lemma ipfs_retry:
  assumes f: "fetchAnalysisFromAPI (analysisReply env) = Inr (a1, a2)"
    and u: "upload_both env = Inr (r1, r2)"
    and c: "calls_of (checkAndUpdateScores_ipfs env s) = [c]"
    and failed: "\<not> receipt_ok (chain env c)"
    and same: "analysisReply env2 = analysisReply env"
    and u2: "upload_both env2 = Inr (r1', r2')" and ok2: "txOptionsOk env2"
  shows "calls_of (checkAndUpdateScores_ipfs env2 (state_of (checkAndUpdateScores_ipfs env s))) =
     [UpdateScoresAndAnalysis (Math_floor (score a1)) (Math_floor (score a2)) r1' r2']"
proof -
  from ipfs_outcome [OF f u c] failed
  have ch: "strict_neq (Math_floor (score a1)) (lastKnownBlackSwanScore s) \<or>
          strict_neq (Math_floor (score a2)) (lastKnownMarketPeakScore s)"
    and keep: "cache_ipfs (state_of (checkAndUpdateScores_ipfs env s)) = cache_ipfs s"
    by auto
  from keep have same_scores:
    "lastKnownBlackSwanScore (state_of (checkAndUpdateScores_ipfs env s)) = lastKnownBlackSwanScore s"
    "lastKnownMarketPeakScore (state_of (checkAndUpdateScores_ipfs env s)) = lastKnownMarketPeakScore s"
    by (simp_all add: cache_ipfs_def)
  have f2: "fetchAnalysisFromAPI (analysisReply env2) = Inr (a1, a2)" using f same by simp
  show ?thesis
    using ch by (simp add: ipfs_calls [OF f2 u2 ok2] same_scores del: strict_neq.simps)
qed

subsection \<open>The cache and the transaction outcome\<close>

text \<open>
  Claim C2, as the code has it. Once both scores are cached, a cycle of the score-only
  service changes the cached scores if and only if it submitted a call whose receipt
  reports success; they then are the fetched scores, and after a failed call they are as
  before, so that a later cycle with the same reply submits the same call again. In the
  publishing service the cached scores and content references change only with a
  successful receipt, in the first cycle too; they then are this cycle's scores and
  references, and after a failed call a later cycle with the same reply submits the
  combined update with the same scores again.
\<close>

theorem cache_follows_confirmed_success:
  "(lastKnownBlackSwanScore s = Some cb \<and> lastKnownMarketPeakScore s = Some cm \<longrightarrow>
      (cache (state_of (checkAndUpdateScores env s)) \<noteq> cache s) =
        (\<exists>c. calls_of (checkAndUpdateScores env s) = [c] \<and> receipt_ok (chain env c))) \<and>
   (lastKnownBlackSwanScore s = Some cb \<and> lastKnownMarketPeakScore s = Some cm \<and>
    fetchScoresFromAPI (apiReply env) = Inr (b, m) \<and>
    calls_of (checkAndUpdateScores env s) = [c] \<longrightarrow>
      cache (state_of (checkAndUpdateScores env s)) =
        (if receipt_ok (chain env c) then (Some b, Some m) else cache s) \<and>
      (\<not> receipt_ok (chain env c) \<and> apiReply env2 = apiReply env \<and> txOptionsOk env2 \<longrightarrow>
         calls_of (checkAndUpdateScores env2 (state_of (checkAndUpdateScores env s))) = [c])) \<and>
   (cache_ipfs (state_of (checkAndUpdateScores_ipfs envi si)) \<noteq> cache_ipfs si \<longrightarrow>
      (\<exists>c. calls_of (checkAndUpdateScores_ipfs envi si) = [c] \<and> receipt_ok (chain envi c))) \<and>
   (fetchAnalysisFromAPI (analysisReply envi) = Inr (a1, a2) \<and>
    upload_both envi = Inr (r1, r2) \<and>
    calls_of (checkAndUpdateScores_ipfs envi si) = [ci] \<longrightarrow>
      cache_ipfs (state_of (checkAndUpdateScores_ipfs envi si)) =
        (if receipt_ok (chain envi ci)
         then (Some (Math_floor (score a1)), Some (Math_floor (score a2)), Some r1, Some r2)
         else cache_ipfs si) \<and>
      (\<not> receipt_ok (chain envi ci) \<and> analysisReply envi2 = analysisReply envi \<and>
       upload_both envi2 = Inr (r1', r2') \<and> txOptionsOk envi2 \<longrightarrow>
         calls_of (checkAndUpdateScores_ipfs envi2
                     (state_of (checkAndUpdateScores_ipfs envi si))) =
           [UpdateScoresAndAnalysis (Math_floor (score a1)) (Math_floor (score a2)) r1' r2']))"
proof (intro conjI impI; (elim conjE)?)
  assume "lastKnownBlackSwanScore s = Some cb" "lastKnownMarketPeakScore s = Some cm"
  then show "(cache (state_of (checkAndUpdateScores env s)) \<noteq> cache s) =
        (\<exists>c. calls_of (checkAndUpdateScores env s) = [c] \<and> receipt_ok (chain env c))"
    by (rule steady_cache_iff)
next
  assume a: "lastKnownBlackSwanScore s = Some cb" "lastKnownMarketPeakScore s = Some cm"
    "fetchScoresFromAPI (apiReply env) = Inr (b, m)"
    "calls_of (checkAndUpdateScores env s) = [c]"
  from steady_outcome [OF a(3) a(1) a(2) a(4)]
  show "cache (state_of (checkAndUpdateScores env s)) =
        (if receipt_ok (chain env c) then (Some b, Some m) else cache s)"
    by simp
next
  assume a: "lastKnownBlackSwanScore s = Some cb" "lastKnownMarketPeakScore s = Some cm"
    "fetchScoresFromAPI (apiReply env) = Inr (b, m)"
    "calls_of (checkAndUpdateScores env s) = [c]"
    "\<not> receipt_ok (chain env c)" "apiReply env2 = apiReply env" "txOptionsOk env2"
  show "calls_of (checkAndUpdateScores env2 (state_of (checkAndUpdateScores env s))) = [c]"
    by (rule steady_retry [OF a(3) a(1) a(2) a(4) a(5) a(6) a(7)])
next
  assume "cache_ipfs (state_of (checkAndUpdateScores_ipfs envi si)) \<noteq> cache_ipfs si"
  then show "\<exists>c. calls_of (checkAndUpdateScores_ipfs envi si) = [c] \<and> receipt_ok (chain envi c)"
    using ipfs_cache_only_on_success [of envi si] by blast
next
  assume a: "fetchAnalysisFromAPI (analysisReply envi) = Inr (a1, a2)"
    "upload_both envi = Inr (r1, r2)"
    "calls_of (checkAndUpdateScores_ipfs envi si) = [ci]"
  from ipfs_outcome [OF a]
  show "cache_ipfs (state_of (checkAndUpdateScores_ipfs envi si)) =
        (if receipt_ok (chain envi ci)
         then (Some (Math_floor (score a1)), Some (Math_floor (score a2)), Some r1, Some r2)
         else cache_ipfs si)"
    by blast
next
  assume a: "fetchAnalysisFromAPI (analysisReply envi) = Inr (a1, a2)"
    "upload_both envi = Inr (r1, r2)"
    "calls_of (checkAndUpdateScores_ipfs envi si) = [ci]"
    "\<not> receipt_ok (chain envi ci)" "analysisReply envi2 = analysisReply envi"
    "upload_both envi2 = Inr (r1', r2')" "txOptionsOk envi2"
  show "calls_of (checkAndUpdateScores_ipfs envi2
                     (state_of (checkAndUpdateScores_ipfs envi si))) =
           [UpdateScoresAndAnalysis (Math_floor (score a1)) (Math_floor (score a2)) r1' r2']"
    by (rule ipfs_retry [OF a])
qed

text \<open>
  The claim as stated fails on the first cycle of the score-only service: no call is
  submitted, so no transaction is confirmed, and the cache goes from unset to the fetched
  scores.
\<close>

theorem cache_mutation_counterexample:
  "calls_of (checkAndUpdateScores
      (scenario_env (Number (Finite 10)) (Number (Finite 10)) (Receipt 0)) (constructor 0)) = [] \<and>
   cache (constructor 0) = (None, None) \<and>
   cache (state_of (checkAndUpdateScores
      (scenario_env (Number (Finite 10)) (Number (Finite 10)) (Receipt 0)) (constructor 0))) =
     (Some (Finite 10), Some (Finite 10))"
  by (simp add: scenario_defs cycle_defs)

text \<open>
  The theorem at the scenario of the specification: 40 and 60 cached, 10 and 10 fetched,
  the transaction reverted (receipt status 0); the next cycle fetches the same scores.
\<close>

theorem cache_follows_confirmed_success_witness:
  "lastKnownBlackSwanScore cached_40_60 = Some (Finite 40) \<and>
   lastKnownMarketPeakScore cached_40_60 = Some (Finite 60) \<and>
   calls_of (checkAndUpdateScores
      (scenario_env (Number (Finite 10)) (Number (Finite 10)) (Receipt 0)) cached_40_60) =
     [UpdateBothScores (Finite 10) (Finite 10)] \<and>
   \<not> receipt_ok (chain (scenario_env (Number (Finite 10)) (Number (Finite 10)) (Receipt 0))
                   (UpdateBothScores (Finite 10) (Finite 10))) \<and>
   cache (state_of (checkAndUpdateScores
      (scenario_env (Number (Finite 10)) (Number (Finite 10)) (Receipt 0)) cached_40_60)) =
     (Some (Finite 40), Some (Finite 60)) \<and>
   calls_of (checkAndUpdateScores
      (scenario_env (Number (Finite 10)) (Number (Finite 10)) (Receipt 1))
      (state_of (checkAndUpdateScores
         (scenario_env (Number (Finite 10)) (Number (Finite 10)) (Receipt 0)) cached_40_60))) =
     [UpdateBothScores (Finite 10) (Finite 10)] \<and>
   calls_of (checkAndUpdateScores_ipfs
      (ipfs_scenario_env (Finite 10) (Finite 10) (Receipt 0)) ipfs_cached_40_60) =
     [UpdateScoresAndAnalysis (Finite 10) (Finite 10) ''ipfs://QmBlackSwan'' ''ipfs://QmMarketPeak''] \<and>
   cache_ipfs (state_of (checkAndUpdateScores_ipfs
      (ipfs_scenario_env (Finite 10) (Finite 10) (Receipt 0)) ipfs_cached_40_60)) =
     cache_ipfs ipfs_cached_40_60 \<and>
   calls_of (checkAndUpdateScores_ipfs
      (ipfs_scenario_env (Finite 10) (Finite 10) (Receipt 1))
      (state_of (checkAndUpdateScores_ipfs
         (ipfs_scenario_env (Finite 10) (Finite 10) (Receipt 0)) ipfs_cached_40_60))) =
     [UpdateScoresAndAnalysis (Finite 10) (Finite 10) ''ipfs://QmBlackSwan'' ''ipfs://QmMarketPeak'']"
proof -
  let ?env = "scenario_env (Number (Finite 10)) (Number (Finite 10)) (Receipt 0)"
  let ?env2 = "scenario_env (Number (Finite 10)) (Number (Finite 10)) (Receipt 1)"
  let ?envi = "ipfs_scenario_env (Finite 10) (Finite 10) (Receipt 0)"
  let ?envi2 = "ipfs_scenario_env (Finite 10) (Finite 10) (Receipt 1)"
  let ?c = "UpdateBothScores (Finite 10) (Finite 10)"
  let ?ci = "UpdateScoresAndAnalysis (Finite 10) (Finite 10)
               ''ipfs://QmBlackSwan'' ''ipfs://QmMarketPeak''"
  let ?a = "\<lparr>score = Finite 10, details = ''''\<rparr>"
  have h1: "lastKnownBlackSwanScore cached_40_60 = Some (Finite 40)"
    "lastKnownMarketPeakScore cached_40_60 = Some (Finite 60)"
    by (simp_all add: scenario_defs)
  have h2: "fetchScoresFromAPI (apiReply ?env) = Inr (Finite 10, Finite 10)"
    by (simp add: scenario_env_def fetchScoresFromAPI_def)
  have h3: "calls_of (checkAndUpdateScores ?env cached_40_60) = [?c]"
    by (simp add: scenario_defs cycle_defs)
  have h4: "\<not> receipt_ok (chain ?env ?c)" "apiReply ?env2 = apiReply ?env" "txOptionsOk ?env2"
    by (simp_all add: scenario_env_def receipt_ok_def)
  have h5: "fetchAnalysisFromAPI (analysisReply ?envi) = Inr (?a, ?a)"
    by (simp add: ipfs_scenario_env_def fetchAnalysisFromAPI_def)
  have h6: "upload_both ?envi = Inr (''ipfs://QmBlackSwan'', ''ipfs://QmMarketPeak'')"
    "upload_both ?envi2 = Inr (''ipfs://QmBlackSwan'', ''ipfs://QmMarketPeak'')"
    by (simp_all add: ipfs_scenario_env_def upload_both_def uploadJSONToIPFS_def)
  have h7: "calls_of (checkAndUpdateScores_ipfs ?envi ipfs_cached_40_60) = [?ci]"
    by (simp add: scenario_defs ipfs_cycle_defs)
  have h8: "\<not> receipt_ok (chain ?envi ?ci)" "analysisReply ?envi2 = analysisReply ?envi"
    "txOptionsOk ?envi2"
    by (simp_all add: ipfs_scenario_env_def receipt_ok_def)
  note inst = cache_follows_confirmed_success
    [where s = cached_40_60 and cb = "Finite 40" and cm = "Finite 60" and env = ?env
       and b = "Finite 10" and m = "Finite 10" and c = ?c and ?env2.0 = ?env2
       and envi = ?envi and si = ipfs_cached_40_60 and ?a1.0 = ?a and ?a2.0 = ?a
       and ?r1.0 = "''ipfs://QmBlackSwan''" and ?r2.0 = "''ipfs://QmMarketPeak''"
       and ci = ?ci and ?envi2.0 = ?envi2
       and r1' = "''ipfs://QmBlackSwan''" and r2' = "''ipfs://QmMarketPeak''"]
  have k1: "cache (state_of (checkAndUpdateScores ?env cached_40_60)) = cache cached_40_60"
    and k2: "calls_of (checkAndUpdateScores ?env2
                (state_of (checkAndUpdateScores ?env cached_40_60))) = [?c]"
    using inst h1 h2 h3 h4 by simp_all
  have k3: "cache_ipfs (state_of (checkAndUpdateScores_ipfs ?envi ipfs_cached_40_60)) =
              cache_ipfs ipfs_cached_40_60"
    and k4: "calls_of (checkAndUpdateScores_ipfs ?envi2
                (state_of (checkAndUpdateScores_ipfs ?envi ipfs_cached_40_60))) = [?ci]"
    using inst h5 h6 h7 h8 by simp_all
  have k0: "cache cached_40_60 = (Some (Finite 40), Some (Finite 60))"
    using h1 by (simp add: cache_def)
  show ?thesis
    using h1 h3 h4(1) k1 k2 h7 k3 k4 k0 by simp
qed

subsection \<open>Status after a failed transaction\<close>

text \<open>
  Claim C5, as the code has it. When the call submitted by a steady-state cycle fails
  (rejected on submission, rejected while waiting, or a receipt whose status is not 1),
  both services add one to \<^verbatim>\<open>errorCount\<close>, set \<^verbatim>\<open>isHealthy\<close> to false and leave
  the cache as it was; \<^verbatim>\<open>lastError\<close> keeps its previous value, since the failure
  reaches the cycle only as the boolean \<^verbatim>\<open>false\<close>.
\<close>

theorem tx_failure_is_counted:
  "(lastKnownBlackSwanScore s = Some cb \<and> lastKnownMarketPeakScore s = Some cm \<and>
    fetchScoresFromAPI (apiReply env) = Inr (b, m) \<and>
    calls_of (checkAndUpdateScores env s) = [c] \<and> \<not> receipt_ok (chain env c) \<longrightarrow>
      errorCount (serviceStatus (state_of (checkAndUpdateScores env s))) =
        errorCount (serviceStatus s) + 1 \<and>
      \<not> isHealthy (serviceStatus (state_of (checkAndUpdateScores env s))) \<and>
      lastError (serviceStatus (state_of (checkAndUpdateScores env s))) =
        lastError (serviceStatus s) \<and>
      cache (state_of (checkAndUpdateScores env s)) = cache s) \<and>
   (lastKnownBlackSwanScore si = Some cbi \<and> lastKnownMarketPeakScore si = Some cmi \<and>
    fetchAnalysisFromAPI (analysisReply envi) = Inr (a1, a2) \<and>
    upload_both envi = Inr (r1, r2) \<and>
    calls_of (checkAndUpdateScores_ipfs envi si) = [ci] \<and> \<not> receipt_ok (chain envi ci) \<longrightarrow>
      errorCount (serviceStatus (state_of (checkAndUpdateScores_ipfs envi si))) =
        errorCount (serviceStatus si) + 1 \<and>
      \<not> isHealthy (serviceStatus (state_of (checkAndUpdateScores_ipfs envi si))) \<and>
      lastError (serviceStatus (state_of (checkAndUpdateScores_ipfs envi si))) =
        lastError (serviceStatus si) \<and>
      cache_ipfs (state_of (checkAndUpdateScores_ipfs envi si)) = cache_ipfs si)"
proof (rule conjI; rule impI; elim conjE)
  assume a: "lastKnownBlackSwanScore s = Some cb" "lastKnownMarketPeakScore s = Some cm"
    "fetchScoresFromAPI (apiReply env) = Inr (b, m)"
    "calls_of (checkAndUpdateScores env s) = [c]" "\<not> receipt_ok (chain env c)"
  from steady_outcome [OF a(3) a(1) a(2) a(4)] a(5)
  have st: "state_of (checkAndUpdateScores env s) = on_tx_failure (mark_attempt (startedAt env) s)"
    by simp
  show "errorCount (serviceStatus (state_of (checkAndUpdateScores env s))) =
        errorCount (serviceStatus s) + 1 \<and>
      \<not> isHealthy (serviceStatus (state_of (checkAndUpdateScores env s))) \<and>
      lastError (serviceStatus (state_of (checkAndUpdateScores env s))) =
        lastError (serviceStatus s) \<and>
      cache (state_of (checkAndUpdateScores env s)) = cache s"
    unfolding st by (simp add: on_tx_failure_def mark_attempt_def cache_def)
next
  assume a: "lastKnownBlackSwanScore si = Some cbi" "lastKnownMarketPeakScore si = Some cmi"
    "fetchAnalysisFromAPI (analysisReply envi) = Inr (a1, a2)"
    "upload_both envi = Inr (r1, r2)"
    "calls_of (checkAndUpdateScores_ipfs envi si) = [ci]" "\<not> receipt_ok (chain envi ci)"
  from ipfs_outcome [OF a(3) a(4) a(5)]
  have ok: "txOptionsOk envi"
    and ceq: "ci = UpdateScoresAndAnalysis (Math_floor (score a1)) (Math_floor (score a2)) r1 r2"
    and ch: "strict_neq (Math_floor (score a1)) (lastKnownBlackSwanScore si) \<or>
          strict_neq (Math_floor (score a2)) (lastKnownMarketPeakScore si)"
    by blast+
  from ch have cond: "(\<not> strict_neq (Math_floor (score a1)) (Some cbi) \<and>
         \<not> strict_neq (Math_floor (score a2)) (Some cmi)) = False"
    unfolding a(1) a(2) by blast
  have st: "state_of (checkAndUpdateScores_ipfs envi si) =
            on_tx_failure (mark_attempt (startedAt envi) si)"
    using a(6) unfolding ipfs_steady [OF a(3) a(1) a(2) a(4) ok] cond ceq by simp
  show "errorCount (serviceStatus (state_of (checkAndUpdateScores_ipfs envi si))) =
        errorCount (serviceStatus si) + 1 \<and>
      \<not> isHealthy (serviceStatus (state_of (checkAndUpdateScores_ipfs envi si))) \<and>
      lastError (serviceStatus (state_of (checkAndUpdateScores_ipfs envi si))) =
        lastError (serviceStatus si) \<and>
      cache_ipfs (state_of (checkAndUpdateScores_ipfs envi si)) = cache_ipfs si"
    unfolding st by (simp add: on_tx_failure_def mark_attempt_def cache_ipfs_def)
qed

text \<open>
  The claim as stated fails: with 40 and 60 cached and 10 and 10 fetched, the combined
  update is submitted and reverts (receipt status 0), and \<^verbatim>\<open>lastError\<close> is still
  unset afterwards.
\<close>

theorem tx_failure_counterexample:
  "calls_of (checkAndUpdateScores
      (scenario_env (Number (Finite 10)) (Number (Finite 10)) (Receipt 0)) cached_40_60) =
     [UpdateBothScores (Finite 10) (Finite 10)] \<and>
   lastError (serviceStatus (state_of (checkAndUpdateScores
      (scenario_env (Number (Finite 10)) (Number (Finite 10)) (Receipt 0)) cached_40_60))) = None"
  by (simp add: scenario_defs cycle_defs)

text \<open>
  The theorem with 40 and 60 cached: the score-only service fetches 10 and 10 and the wait
  for the receipt rejects; the publishing service fetches 10 and 60 and the submission
  rejects.
\<close>

theorem tx_failure_is_counted_witness:
  "calls_of (checkAndUpdateScores
      (scenario_env (Number (Finite 10)) (Number (Finite 10)) WaitRejected) cached_40_60) =
     [UpdateBothScores (Finite 10) (Finite 10)] \<and>
   \<not> receipt_ok (chain (scenario_env (Number (Finite 10)) (Number (Finite 10)) WaitRejected)
                   (UpdateBothScores (Finite 10) (Finite 10))) \<and>
   errorCount (serviceStatus (state_of (checkAndUpdateScores
      (scenario_env (Number (Finite 10)) (Number (Finite 10)) WaitRejected) cached_40_60))) = 1 \<and>
   \<not> isHealthy (serviceStatus (state_of (checkAndUpdateScores
      (scenario_env (Number (Finite 10)) (Number (Finite 10)) WaitRejected) cached_40_60))) \<and>
   cache (state_of (checkAndUpdateScores
      (scenario_env (Number (Finite 10)) (Number (Finite 10)) WaitRejected) cached_40_60)) =
     (Some (Finite 40), Some (Finite 60)) \<and>
   calls_of (checkAndUpdateScores_ipfs
      (ipfs_scenario_env (Finite 10) (Finite 60) SubmitRejected) ipfs_cached_40_60) =
     [UpdateScoresAndAnalysis (Finite 10) (Finite 60) ''ipfs://QmBlackSwan'' ''ipfs://QmMarketPeak''] \<and>
   errorCount (serviceStatus (state_of (checkAndUpdateScores_ipfs
      (ipfs_scenario_env (Finite 10) (Finite 60) SubmitRejected) ipfs_cached_40_60))) = 1 \<and>
   \<not> isHealthy (serviceStatus (state_of (checkAndUpdateScores_ipfs
      (ipfs_scenario_env (Finite 10) (Finite 60) SubmitRejected) ipfs_cached_40_60))) \<and>
   cache_ipfs (state_of (checkAndUpdateScores_ipfs
      (ipfs_scenario_env (Finite 10) (Finite 60) SubmitRejected) ipfs_cached_40_60)) =
     cache_ipfs ipfs_cached_40_60"
proof -
  let ?env = "scenario_env (Number (Finite 10)) (Number (Finite 10)) WaitRejected"
  let ?envi = "ipfs_scenario_env (Finite 10) (Finite 60) SubmitRejected"
  let ?c = "UpdateBothScores (Finite 10) (Finite 10)"
  let ?ci = "UpdateScoresAndAnalysis (Finite 10) (Finite 60)
               ''ipfs://QmBlackSwan'' ''ipfs://QmMarketPeak''"
  have h1: "lastKnownBlackSwanScore cached_40_60 = Some (Finite 40)"
    "lastKnownMarketPeakScore cached_40_60 = Some (Finite 60)"
    "lastKnownBlackSwanScore ipfs_cached_40_60 = Some (Finite 40)"
    "lastKnownMarketPeakScore ipfs_cached_40_60 = Some (Finite 60)"
    "errorCount (serviceStatus cached_40_60) = 0"
    "errorCount (serviceStatus ipfs_cached_40_60) = 0"
    by (simp_all add: scenario_defs)
  have h2: "fetchScoresFromAPI (apiReply ?env) = Inr (Finite 10, Finite 10)"
    by (simp add: scenario_env_def fetchScoresFromAPI_def)
  have h3: "calls_of (checkAndUpdateScores ?env cached_40_60) = [?c]"
    by (simp add: scenario_defs cycle_defs)
  have h4: "\<not> receipt_ok (chain ?env ?c)" "\<not> receipt_ok (chain ?envi ?ci)"
    by (simp_all add: scenario_env_def ipfs_scenario_env_def receipt_ok_def)
  have h5: "fetchAnalysisFromAPI (analysisReply ?envi) =
      Inr (\<lparr>score = Finite 10, details = ''''\<rparr>, \<lparr>score = Finite 60, details = ''''\<rparr>)"
    by (simp add: ipfs_scenario_env_def fetchAnalysisFromAPI_def)
  have h6: "upload_both ?envi = Inr (''ipfs://QmBlackSwan'', ''ipfs://QmMarketPeak'')"
    by (simp add: ipfs_scenario_env_def upload_both_def uploadJSONToIPFS_def)
  have h7: "calls_of (checkAndUpdateScores_ipfs ?envi ipfs_cached_40_60) = [?ci]"
    by (simp add: scenario_defs ipfs_cycle_defs)
  note inst = tx_failure_is_counted
    [where s = cached_40_60 and cb = "Finite 40" and cm = "Finite 60" and env = ?env
       and b = "Finite 10" and m = "Finite 10" and c = ?c
       and si = ipfs_cached_40_60 and cbi = "Finite 40" and cmi = "Finite 60" and envi = ?envi
       and ?a1.0 = "\<lparr>score = Finite 10, details = ''''\<rparr>"
       and ?a2.0 = "\<lparr>score = Finite 60, details = ''''\<rparr>"
       and ?r1.0 = "''ipfs://QmBlackSwan''" and ?r2.0 = "''ipfs://QmMarketPeak''" and ci = ?ci]
  have k1: "errorCount (serviceStatus (state_of (checkAndUpdateScores ?env cached_40_60))) = 1"
    "\<not> isHealthy (serviceStatus (state_of (checkAndUpdateScores ?env cached_40_60)))"
    "cache (state_of (checkAndUpdateScores ?env cached_40_60)) = cache cached_40_60"
    using inst h1 h2 h3 h4 by simp_all
  have k2: "errorCount (serviceStatus (state_of (checkAndUpdateScores_ipfs ?envi ipfs_cached_40_60))) = 1"
    "\<not> isHealthy (serviceStatus (state_of (checkAndUpdateScores_ipfs ?envi ipfs_cached_40_60)))"
    "cache_ipfs (state_of (checkAndUpdateScores_ipfs ?envi ipfs_cached_40_60)) =
       cache_ipfs ipfs_cached_40_60"
    using inst h1 h5 h6 h7 h4 by simp_all
  have k0: "cache cached_40_60 = (Some (Finite 40), Some (Finite 60))"
    using h1 by (simp add: cache_def)
  show ?thesis
    using h3 h4 k1 k2 h7 k0 by simp
qed

subsection \<open>Malformed scores\<close>

lemma malformed_invalid: "malformed v \<Longrightarrow> v = Undefined \<or> invalid_score v"
  by (cases v) (auto simp: malformed_def)

lemma fetch_malformed:
  assumes "malformed bs \<or> malformed mp"
  shows "\<exists>e. fetchScoresFromAPI (Body bs mp) = Inl e"
  using assms malformed_invalid [of bs] malformed_invalid [of mp]
  by (auto simp: fetchScoresFromAPI_def)

lemma score_only_malformed_abort:
  assumes bad: "malformed bs \<or> malformed mp" and reply: "apiReply env = Body bs mp"
  shows "(\<exists>e. fetchScoresFromAPI (apiReply env) = Inl e) \<and>
         calls_of (checkAndUpdateScores env s) = [] \<and>
         cache (state_of (checkAndUpdateScores env s)) = cache s \<and>
         errorCount (serviceStatus (state_of (checkAndUpdateScores env s))) =
           errorCount (serviceStatus s) + 1"
proof -
  from fetch_malformed [OF bad] reply obtain e where e: "fetchScoresFromAPI (apiReply env) = Inl e"
    by auto
  show ?thesis
    by (simp add: e cycle_fetch_error [OF e]) (simp add: on_error_def mark_attempt_def)
qed

lemma publishing_missing_analysis_abort:
  assumes missing: "blackswan = None \<or> marketPeak = None"
    and reply: "analysisReply env = AnalysisBody blackswan marketPeak"
  shows "fetchAnalysisFromAPI (analysisReply env) = Inl AnalysisExtractError \<and>
         calls_of (checkAndUpdateScores_ipfs env s) = [] \<and>
         cache_ipfs (state_of (checkAndUpdateScores_ipfs env s)) = cache_ipfs s \<and>
         errorCount (serviceStatus (state_of (checkAndUpdateScores_ipfs env s))) =
           errorCount (serviceStatus s) + 1"
proof -
  have e: "fetchAnalysisFromAPI (analysisReply env) = Inl AnalysisExtractError"
    using missing unfolding reply
    by (cases blackswan; cases marketPeak) (simp_all add: fetchAnalysisFromAPI_def)
  show ?thesis
    by (simp add: e ipfs_fetch_error [OF e]) (simp add: on_error_def mark_attempt_def)
qed

lemma publishing_accepts_any_score:
  assumes reply: "analysisReply env = AnalysisBody (Some a1) (Some a2)"
    and u: "upload_both env = Inr (r1, r2)" and ok: "txOptionsOk env"
  shows "fetchAnalysisFromAPI (analysisReply env) = Inr (a1, a2) \<and>
         calls_of (checkAndUpdateScores_ipfs env s) =
           (if strict_neq (Math_floor (score a1)) (lastKnownBlackSwanScore s) \<or>
               strict_neq (Math_floor (score a2)) (lastKnownMarketPeakScore s)
            then [UpdateScoresAndAnalysis (Math_floor (score a1)) (Math_floor (score a2)) r1 r2]
            else [])"
proof -
  have f: "fetchAnalysisFromAPI (analysisReply env) = Inr (a1, a2)"
    unfolding reply by (simp add: fetchAnalysisFromAPI_def)
  from ipfs_calls [OF f u ok, of s] f show ?thesis by blast
qed

text \<open>
  Claim C6, as the code has it. In the score-only service, when a score of the upstream
  response is missing, not a number, NaN or negative, \<^verbatim>\<open>fetchScoresFromAPI\<close> fails
  with an error, and the cycle makes no contract call, leaves the cached scores as they
  were and adds exactly one to \<^verbatim>\<open>errorCount\<close>. In the publishing service the fetch
  step, \<^verbatim>\<open>fetchAnalysisFromAPI\<close>, fails in that way when an analysis is missing from
  the response; it checks no score, so a response that carries both analyses is accepted
  whatever their scores are, and (the uploads succeeding and the fee overrides parsing)
  \<^verbatim>\<open>updateScoresAndAnalysis\<close> is called with the floored scores whenever the cache is
  unset or one of them differs from it.
\<close>

theorem malformed_scores_by_service:
  "((malformed bs \<or> malformed mp) \<and> apiReply env = Body bs mp \<longrightarrow>
      (\<exists>e. fetchScoresFromAPI (apiReply env) = Inl e) \<and>
      calls_of (checkAndUpdateScores env s) = [] \<and>
      cache (state_of (checkAndUpdateScores env s)) = cache s \<and>
      errorCount (serviceStatus (state_of (checkAndUpdateScores env s))) =
        errorCount (serviceStatus s) + 1) \<and>
   ((blackswan = None \<or> marketPeak = None) \<and>
    analysisReply envi = AnalysisBody blackswan marketPeak \<longrightarrow>
      fetchAnalysisFromAPI (analysisReply envi) = Inl AnalysisExtractError \<and>
      calls_of (checkAndUpdateScores_ipfs envi si) = [] \<and>
      cache_ipfs (state_of (checkAndUpdateScores_ipfs envi si)) = cache_ipfs si \<and>
      errorCount (serviceStatus (state_of (checkAndUpdateScores_ipfs envi si))) =
        errorCount (serviceStatus si) + 1) \<and>
   (analysisReply envj = AnalysisBody (Some a1) (Some a2) \<and>
    upload_both envj = Inr (r1, r2) \<and> txOptionsOk envj \<longrightarrow>
      fetchAnalysisFromAPI (analysisReply envj) = Inr (a1, a2) \<and>
      calls_of (checkAndUpdateScores_ipfs envj sj) =
        (if strict_neq (Math_floor (score a1)) (lastKnownBlackSwanScore sj) \<or>
            strict_neq (Math_floor (score a2)) (lastKnownMarketPeakScore sj)
         then [UpdateScoresAndAnalysis (Math_floor (score a1)) (Math_floor (score a2)) r1 r2]
         else []))"
  using score_only_malformed_abort [of bs mp env s]
    publishing_missing_analysis_abort [of blackswan marketPeak envi si]
    publishing_accepts_any_score [of envj a1 a2 r1 r2 sj]
  by blast

text \<open>
  The claim as stated fails on the publishing service: with the scores -1 and 50 the
  fetch succeeds and \<^verbatim>\<open>updateScoresAndAnalysis(-1, 50, ...)\<close> is called, with 40 and 60
  cached as well as in a first cycle; when that submission is rejected in a first cycle,
  \<^verbatim>\<open>errorCount\<close> is still 0.
\<close>

theorem unvalidated_scores_counterexample:
  "fetchAnalysisFromAPI
     (analysisReply (ipfs_scenario_env (Finite (- 1)) (Finite 50) SubmitRejected)) =
     Inr (\<lparr>score = Finite (- 1), details = ''''\<rparr>, \<lparr>score = Finite 50, details = ''''\<rparr>) \<and>
   calls_of (checkAndUpdateScores_ipfs
      (ipfs_scenario_env (Finite (- 1)) (Finite 50) SubmitRejected) ipfs_cached_40_60) =
     [UpdateScoresAndAnalysis (Finite (- 1)) (Finite 50)
        ''ipfs://QmBlackSwan'' ''ipfs://QmMarketPeak''] \<and>
   calls_of (checkAndUpdateScores_ipfs
      (ipfs_scenario_env (Finite (- 1)) (Finite 50) SubmitRejected) (constructor_ipfs 0)) =
     [UpdateScoresAndAnalysis (Finite (- 1)) (Finite 50)
        ''ipfs://QmBlackSwan'' ''ipfs://QmMarketPeak''] \<and>
   errorCount (serviceStatus (state_of (checkAndUpdateScores_ipfs
      (ipfs_scenario_env (Finite (- 1)) (Finite 50) SubmitRejected) (constructor_ipfs 0)))) = 0"
  by (simp add: scenario_defs ipfs_cycle_defs)

text \<open>
  The theorem at the scenario of the specification, a blackswan score of -1 and a market
  peak score of 50 with 40 and 60 cached: the score-only cycle aborts; the publishing
  cycle aborts when the blackswan analysis is missing and calls the contract when both
  analyses are there.
\<close>

theorem malformed_scores_by_service_witness:
  "malformed (Number (Finite (- 1))) \<and>
   calls_of (checkAndUpdateScores
      (scenario_env (Number (Finite (- 1))) (Number (Finite 50)) (Receipt 1)) cached_40_60) = [] \<and>
   cache (state_of (checkAndUpdateScores
      (scenario_env (Number (Finite (- 1))) (Number (Finite 50)) (Receipt 1)) cached_40_60)) =
     (Some (Finite 40), Some (Finite 60)) \<and>
   errorCount (serviceStatus (state_of (checkAndUpdateScores
      (scenario_env (Number (Finite (- 1))) (Number (Finite 50)) (Receipt 1)) cached_40_60))) = 1 \<and>
   calls_of (checkAndUpdateScores_ipfs
      ((ipfs_scenario_env (Finite (- 1)) (Finite 50) (Receipt 1))
         \<lparr>analysisReply := AnalysisBody None (Some \<lparr>score = Finite 50, details = ''''\<rparr>)\<rparr>)
      ipfs_cached_40_60) = [] \<and>
   errorCount (serviceStatus (state_of (checkAndUpdateScores_ipfs
      ((ipfs_scenario_env (Finite (- 1)) (Finite 50) (Receipt 1))
         \<lparr>analysisReply := AnalysisBody None (Some \<lparr>score = Finite 50, details = ''''\<rparr>)\<rparr>)
      ipfs_cached_40_60))) = 1 \<and>
   upload_both (ipfs_scenario_env (Finite (- 1)) (Finite 50) (Receipt 1)) =
     Inr (''ipfs://QmBlackSwan'', ''ipfs://QmMarketPeak'') \<and>
   calls_of (checkAndUpdateScores_ipfs
      (ipfs_scenario_env (Finite (- 1)) (Finite 50) (Receipt 1)) ipfs_cached_40_60) =
     [UpdateScoresAndAnalysis (Finite (- 1)) (Finite 50)
        ''ipfs://QmBlackSwan'' ''ipfs://QmMarketPeak'']"
proof -
  let ?env = "scenario_env (Number (Finite (- 1))) (Number (Finite 50)) (Receipt 1)"
  let ?envj = "ipfs_scenario_env (Finite (- 1)) (Finite 50) (Receipt 1)"
  let ?a2 = "\<lparr>score = Finite 50, details = ''''\<rparr>"
  let ?envi = "?envj\<lparr>analysisReply := AnalysisBody None (Some ?a2)\<rparr>"
  have h1: "malformed (Number (Finite (- 1)))" by (simp add: malformed_def)
  have h2: "apiReply ?env = Body (Number (Finite (- 1))) (Number (Finite 50))"
    by (simp add: scenario_env_def)
  have h3: "analysisReply ?envi = AnalysisBody None (Some ?a2)" by simp
  have h4: "analysisReply ?envj =
      AnalysisBody (Some \<lparr>score = Finite (- 1), details = ''''\<rparr>) (Some ?a2)"
    "txOptionsOk ?envj"
    by (simp_all add: ipfs_scenario_env_def)
  have h5: "upload_both ?envj = Inr (''ipfs://QmBlackSwan'', ''ipfs://QmMarketPeak'')"
    by (simp add: ipfs_scenario_env_def upload_both_def uploadJSONToIPFS_def)
  have h6: "errorCount (serviceStatus cached_40_60) = 0"
    "errorCount (serviceStatus ipfs_cached_40_60) = 0"
    "cache cached_40_60 = (Some (Finite 40), Some (Finite 60))"
    "lastKnownBlackSwanScore ipfs_cached_40_60 = Some (Finite 40)"
    "lastKnownMarketPeakScore ipfs_cached_40_60 = Some (Finite 60)"
    by (simp_all add: scenario_defs cache_def)
  note inst = malformed_scores_by_service
    [where bs = "Number (Finite (- 1))" and mp = "Number (Finite 50)" and env = ?env
       and s = cached_40_60 and blackswan = None and marketPeak = "Some ?a2"
       and envi = ?envi and si = ipfs_cached_40_60 and envj = ?envj
       and ?a1.0 = "\<lparr>score = Finite (- 1), details = ''''\<rparr>" and ?a2.0 = ?a2
       and ?r1.0 = "''ipfs://QmBlackSwan''" and ?r2.0 = "''ipfs://QmMarketPeak''"
       and sj = ipfs_cached_40_60]
  have k1: "calls_of (checkAndUpdateScores ?env cached_40_60) = []"
    "cache (state_of (checkAndUpdateScores ?env cached_40_60)) =
       (Some (Finite 40), Some (Finite 60))"
    "errorCount (serviceStatus (state_of (checkAndUpdateScores ?env cached_40_60))) = 1"
    using inst h1 h2 h6 by simp_all
  have k2: "calls_of (checkAndUpdateScores_ipfs ?envi ipfs_cached_40_60) = []"
    "errorCount (serviceStatus (state_of (checkAndUpdateScores_ipfs ?envi ipfs_cached_40_60))) = 1"
    using inst h3 h6 by simp_all
  have k3: "calls_of (checkAndUpdateScores_ipfs ?envj ipfs_cached_40_60) =
     [UpdateScoresAndAnalysis (Finite (- 1)) (Finite 50)
        ''ipfs://QmBlackSwan'' ''ipfs://QmMarketPeak'']"
    using inst h4 h5 h6 by simp
  show ?thesis
    using h1 h5 k1 k2 k3 by blast
qed

subsection \<open>The pieces of a cycle make up the whole\<close>

text \<open>
  Run without interruption, the pieces of the event loop compute what
  \<^verbatim>\<open>checkAndUpdateScores\<close> computes as a whole.
\<close>

lemma cycle_in_pieces:
  "checkAndUpdateScores env s =
     (case after_fetch (txOptionsOk env) (apiReply env) (settledAt env)
             (mark_attempt (startedAt env) s) of
        (AwaitTx b m, calls, s') \<Rightarrow>
          (None, calls, after_tx (chain env (hd calls)) b m (settledAt env) s')
      | (t, calls, s') \<Rightarrow> (None, calls, s'))"
proof (cases "fetchScoresFromAPI (apiReply env)")
  case (Inl e)
  then show ?thesis by (simp add: cycle_fetch_error after_fetch_def)
next
  case (Inr p)
  obtain b m where f: "fetchScoresFromAPI (apiReply env) = Inr (b, m)"
    using Inr by (cases p) auto
  from f have nn: "\<not> isNaN b" "\<not> isNaN m"
    using fetch_ok_not_NaN by blast+
  show ?thesis
  proof (cases "lastKnownBlackSwanScore s = None \<or> lastKnownMarketPeakScore s = None")
    case True
    then show ?thesis
      by (simp add: cycle_first_run [OF f True] after_fetch_def f)
  next
    case False
    then obtain cb cm where cb: "lastKnownBlackSwanScore s = Some cb"
      and cm: "lastKnownMarketPeakScore s = Some cm" by auto
    have c1: "strict_neq b (Some cb) = (b \<noteq> cb)" and c2: "strict_neq m (Some cm) = (m \<noteq> cm)"
      using nn by (simp_all add: strict_neq_number del: strict_neq.simps)
    show ?thesis
    proof (cases "txOptionsOk env")
      case True
      show ?thesis
        unfolding cycle_steady [OF f cb cm] after_fetch_def Let_def
        by (simp add: f cb cm c1 c2 del: strict_neq.simps split del: if_split cong: if_cong)
           (simp add: True update_both update_blackswan update_marketpeak
              select_tx_def after_tx_def)?
    next
      case False
      show ?thesis
        unfolding steady_no_options [OF f cb cm False] after_fetch_def Let_def
        by (simp add: f cb cm c1 c2 del: strict_neq.simps split del: if_split cong: if_cong)
           (simp add: False)?
    qed
  qed
qed

lemma svc_returned [simp]: "svc (returned who sys) = svc sys"
  by (simp add: returned_def)

lemma run_single_cycle:
  "svc (run [PostUpdate t0, FetchSettles (length (tasks sys)) reply t1,
             TxSettles (length (tasks sys)) out t1] sys) =
   state_of (checkAndUpdateScores
     \<lparr>txOptionsOk = feeOptionsOk sys, chain = (\<lambda>c. out), startedAt = t0, settledAt = t1,
      apiReply = reply\<rparr> (svc sys))"
proof -
  obtain t calls s' where af:
    "after_fetch (feeOptionsOk sys) reply t1 (mark_attempt t0 (svc sys)) = (t, calls, s')"
    by (cases "after_fetch (feeOptionsOk sys) reply t1 (mark_attempt t0 (svc sys))") auto
  show ?thesis
    by (cases t)
       (simp_all add: cycle_in_pieces af begin_cycle_def Let_def nth_append returned_def)
qed

subsection \<open>Overlapping cycles\<close>

lemma filter_update_new:
  "i < length xs \<Longrightarrow> \<not> P (xs ! i) \<Longrightarrow> P y \<Longrightarrow>
   length (filter P (xs[i := y])) = Suc (length (filter P xs))"
proof (induction xs arbitrary: i)
  case Nil
  then show ?case by simp
next
  case (Cons x xs)
  then show ?case by (cases i) auto
qed

lemma in_flight_begin: "in_flight (begin_cycle who now sys) = in_flight sys + 1"
  by (simp add: in_flight_def begin_cycle_def)

lemma in_flight_posts:
  "in_flight (run (map PostUpdate ts) sys) = in_flight sys + length ts"
  by (induction ts arbitrary: sys) (simp_all add: in_flight_begin)

lemma after_fetch_changed:
  assumes f: "fetchScoresFromAPI reply = Inr (b, m)"
    and cb: "lastKnownBlackSwanScore s = Some cb" and cm: "lastKnownMarketPeakScore s = Some cm"
    and ch: "b \<noteq> cb \<or> m \<noteq> cm"
  shows "after_fetch True reply now s =
     (AwaitTx b m,
      [if b \<noteq> cb \<and> m \<noteq> cm then UpdateBothScores b m
       else if b \<noteq> cb then UpdateBlackSwanScore b else UpdateMarketPeakScore m],
      s)"
proof -
  from f have nn: "\<not> isNaN b" "\<not> isNaN m"
    using fetch_ok_not_NaN by blast+
  have c1: "strict_neq b (Some cb) = (b \<noteq> cb)" and c2: "strict_neq m (Some cm) = (m \<noteq> cm)"
    using nn by (simp_all add: strict_neq_number del: strict_neq.simps)
  show ?thesis
    unfolding after_fetch_def Let_def
    using ch
    by (simp add: f cb cm c1 c2 del: strict_neq.simps split del: if_split cong: if_cong)
       (auto simp: select_tx_def)?
qed

text \<open>
  Claim C4, as the code has it. No guard stands before \<^verbatim>\<open>checkAndUpdateScores\<close>:
  a \<^verbatim>\<open>POST /update\<close> starts a cycle in every state, and a timer tick starts one
  whenever the interval is set and \<^verbatim>\<open>isRunning\<close> is true, whatever is in flight,
  so any number of requests arriving in a row are all in flight together; and every cycle
  whose fetch succeeds with a score that differs from the cached one (the fee overrides
  parsing) submits its call when the fetch returns, whatever other transactions are
  pending, which makes one more pending transaction.
\<close>

theorem no_reentrancy_guard:
  "in_flight (step (PostUpdate now) sys) = in_flight sys + 1 \<and>
   (intervalSet sys \<and> isRunning (svc sys) \<longrightarrow>
      in_flight (step (TimerTick now) sys) = in_flight sys + 1) \<and>
   in_flight (run (map PostUpdate ts) sys) = in_flight sys + length ts \<and>
   (i < length (tasks sys) \<and> snd (tasks sys ! i) = AwaitFetch \<and> feeOptionsOk sys \<and>
    fetchScoresFromAPI reply = Inr (b, m) \<and>
    lastKnownBlackSwanScore (svc sys) = Some cb \<and>
    lastKnownMarketPeakScore (svc sys) = Some cm \<and> (b \<noteq> cb \<or> m \<noteq> cm) \<longrightarrow>
      submitted (step (FetchSettles i reply now) sys) =
        submitted sys @
          [if b \<noteq> cb \<and> m \<noteq> cm then UpdateBothScores b m
           else if b \<noteq> cb then UpdateBlackSwanScore b else UpdateMarketPeakScore m] \<and>
      pending_tx (step (FetchSettles i reply now) sys) = pending_tx sys + 1)"
proof -
  let ?call = "if b \<noteq> cb \<and> m \<noteq> cm then UpdateBothScores b m
           else if b \<noteq> cb then UpdateBlackSwanScore b else UpdateMarketPeakScore m"
  have fourth: "submitted (step (FetchSettles i reply now) sys) = submitted sys @ [?call] \<and>
      pending_tx (step (FetchSettles i reply now) sys) = pending_tx sys + 1"
    if a: "i < length (tasks sys)" "snd (tasks sys ! i) = AwaitFetch" "feeOptionsOk sys"
      "fetchScoresFromAPI reply = Inr (b, m)"
      "lastKnownBlackSwanScore (svc sys) = Some cb"
      "lastKnownMarketPeakScore (svc sys) = Some cm" "b \<noteq> cb \<or> m \<noteq> cm"
  proof -
    have af: "after_fetch (feeOptionsOk sys) reply now (svc sys) =
                (AwaitTx b m, [?call], svc sys)"
      unfolding a(3) [THEN eqTrueI] by (rule after_fetch_changed [OF a(4) a(5) a(6) a(7)])
    have np: "\<not> (\<lambda>(who, t). awaits_tx t) (tasks sys ! i)"
      using a(2) by (cases "tasks sys ! i") simp
    have "pending_tx (step (FetchSettles i reply now) sys) = pending_tx sys + 1"
      using a(1) a(2) af np by (simp add: pending_tx_def Let_def filter_update_new)
    moreover have "submitted (step (FetchSettles i reply now) sys) = submitted sys @ [?call]"
      using a(1) a(2) af by (simp add: Let_def)
    ultimately show ?thesis by blast
  qed
  have first: "in_flight (step (PostUpdate now) sys) = in_flight sys + 1"
    by (simp add: in_flight_begin)
  have second: "intervalSet sys \<and> isRunning (svc sys) \<longrightarrow>
      in_flight (step (TimerTick now) sys) = in_flight sys + 1"
    by (simp add: in_flight_begin)
  have third: "in_flight (run (map PostUpdate ts) sys) = in_flight sys + length ts"
    by (rule in_flight_posts)
  from first second third fourth show ?thesis by blast
qed

lemmas loop_defs =
  boot_def constructor_def begin_cycle_def start_prefix_def returned_def after_fetch_def
  after_tx_def fetchScoresFromAPI_def select_tx_def mark_attempt_def on_success_def
  on_tx_failure_def on_error_def Let_def

lemma seeded_system_eq:
  "seeded_system =
     \<lparr>svc = \<lparr>lastKnownBlackSwanScore = Some (Finite 40),
             lastKnownMarketPeakScore = Some (Finite 60), isRunning = True,
             serviceStatus =
               \<lparr>status = ''running'', uptime = 0, startTime = 0, lastUpdate = Some 1,
                lastSuccessfulUpdate = None, updateCount = 0, errorCount = 0,
                lastError = None, isHealthy = True\<rparr>\<rparr>,
      tasks = [(FromStart, Returned)], submitted = [], intervalSet = True,
      feeOptionsOk = True\<rparr>"
  by (simp add: seeded_system_def loop_defs)

text \<open>
  The claim as stated fails: with 40 and 60 cached, a timer tick and a
  \<^verbatim>\<open>POST /update\<close> arrive before either fetch returns; both fetches then return 41
  and 60, and two \<^verbatim>\<open>updateBlackSwanScore\<close> transactions are pending at once.
\<close>

theorem concurrent_submissions_counterexample:
  "pending_tx (run [TimerTick 3, PostUpdate 4,
        FetchSettles 1 (Body (Number (Finite 41)) (Number (Finite 60))) 5,
        FetchSettles 2 (Body (Number (Finite 41)) (Number (Finite 60))) 6] seeded_system) = 2 \<and>
   submitted (run [TimerTick 3, PostUpdate 4,
        FetchSettles 1 (Body (Number (Finite 41)) (Number (Finite 60))) 5,
        FetchSettles 2 (Body (Number (Finite 41)) (Number (Finite 60))) 6] seeded_system) =
     [UpdateBlackSwanScore (Finite 41), UpdateBlackSwanScore (Finite 41)]"
  by (simp add: seeded_system_eq pending_tx_def loop_defs)

text \<open>
  The theorem in the state after a \<^verbatim>\<open>POST /update\<close> has started a cycle: a timer
  tick starts a second one, and the first submits its call when its fetch returns.
\<close>

theorem no_reentrancy_guard_witness:
  "intervalSet (step (PostUpdate 3) seeded_system) \<and>
   isRunning (svc (step (PostUpdate 3) seeded_system)) \<and>
   in_flight (step (PostUpdate 3) seeded_system) = 1 \<and>
   in_flight (step (TimerTick 5) (step (PostUpdate 3) seeded_system)) = 2 \<and>
   snd (tasks (step (PostUpdate 3) seeded_system) ! 1) = AwaitFetch \<and>
   feeOptionsOk (step (PostUpdate 3) seeded_system) \<and>
   fetchScoresFromAPI (Body (Number (Finite 41)) (Number (Finite 60))) =
     Inr (Finite 41, Finite 60) \<and>
   lastKnownBlackSwanScore (svc (step (PostUpdate 3) seeded_system)) = Some (Finite 40) \<and>
   lastKnownMarketPeakScore (svc (step (PostUpdate 3) seeded_system)) = Some (Finite 60) \<and>
   submitted (step (FetchSettles 1 (Body (Number (Finite 41)) (Number (Finite 60))) 5)
               (step (PostUpdate 3) seeded_system)) = [UpdateBlackSwanScore (Finite 41)] \<and>
   pending_tx (step (FetchSettles 1 (Body (Number (Finite 41)) (Number (Finite 60))) 5)
               (step (PostUpdate 3) seeded_system)) = 1"
proof -
  let ?sys = "step (PostUpdate 3) seeded_system"
  let ?reply = "Body (Number (Finite 41)) (Number (Finite 60))"
  have h: "intervalSet ?sys" "isRunning (svc ?sys)" "in_flight ?sys = 1"
    "snd (tasks ?sys ! 1) = AwaitFetch" "1 < length (tasks ?sys)" "pending_tx ?sys = 0"
    "submitted ?sys = []" "feeOptionsOk ?sys"
    "lastKnownBlackSwanScore (svc ?sys) = Some (Finite 40)"
    "lastKnownMarketPeakScore (svc ?sys) = Some (Finite 60)"
    by (simp_all add: seeded_system_eq in_flight_def pending_tx_def loop_defs)
  have f: "fetchScoresFromAPI ?reply = Inr (Finite 41, Finite 60)"
    by (simp add: fetchScoresFromAPI_def)
  have ne: "Finite 41 \<noteq> Finite 40 \<or> Finite 60 \<noteq> Finite 60" by simp
  note inst = no_reentrancy_guard
      [where now = 5 and sys = ?sys and ts = "[]" and i = 1 and reply = ?reply
         and b = "Finite 41" and m = "Finite 60" and cb = "Finite 40" and cm = "Finite 60"]
  have k1: "in_flight (step (TimerTick 5) ?sys) = 2"
    using inst h(1,2,3) by simp
  have k2: "submitted (step (FetchSettles 1 ?reply 5) ?sys) = [UpdateBlackSwanScore (Finite 41)]"
    and k3: "pending_tx (step (FetchSettles 1 ?reply 5) ?sys) = 1"
    using inst h(4-10) f ne by simp_all
  show ?thesis
    using h f k1 k2 k3 by blast
qed

subsection \<open>The dev-wallet allow-list\<close>

lemma remove_loop_closed_form:
  "i \<le> length xs \<Longrightarrow> w \<notin> set (take i xs) \<Longrightarrow> w \<in> set xs \<Longrightarrow>
   \<exists>j<length xs. xs ! j = w \<and> remove_loop w i xs = butlast (xs[j := last xs])"
proof (induction w i xs rule: remove_loop.induct)
  case (1 wallet i xs)
  show ?case
  proof (cases "i < length xs")
    case True
    then have ne: "xs \<noteq> []" by auto
    show ?thesis
    proof (cases "xs ! i = wallet")
      case hit: True
      have "remove_loop wallet i xs = butlast (xs[i := last xs])"
        using True hit ne by (simp add: remove_loop.simps [of wallet i xs] last_conv_nth)
      with True hit show ?thesis by blast
    next
      case miss: False
      have "wallet \<notin> set (take (i + 1) xs)"
        using True miss "1.prems"(2) by (simp add: take_Suc_conv_app_nth)
      moreover have "i + 1 \<le> length xs" using True by simp
      ultimately obtain j where "j < length xs" "xs ! j = wallet"
        "remove_loop wallet (i + 1) xs = butlast (xs[j := last xs])"
        using "1.IH" [OF True miss] "1.prems"(3) by blast
      moreover have "remove_loop wallet i xs = remove_loop wallet (i + 1) xs"
        using True miss by (simp add: remove_loop.simps [of wallet i xs])
      ultimately show ?thesis by auto
    qed
  next
    case False
    with "1.prems" show ?thesis by simp
  qed
qed

lemma swap_pop:
  assumes d: "distinct xs" and j: "j < length xs"
  shows "set (butlast (xs[j := last xs])) = set xs - {xs ! j} \<and>
         distinct (butlast (xs[j := last xs]))"
proof -
  from j have "xs \<noteq> []" by auto
  then obtain ys l where xs: "xs = ys @ [l]"
    by (metis append_butlast_last_id)
  from d xs have l: "l \<notin> set ys" and dy: "distinct ys" by auto
  show ?thesis
  proof (cases "j = length ys")
    case True
    then show ?thesis using xs l dy by auto
  next
    case False
    with j xs have jl: "j < length ys" by simp
    have upd: "butlast (xs[j := last xs]) = ys[j := l]"
      using jl xs by (simp add: list_update_append1)
    have nth: "xs ! j = ys ! j" using jl xs by (simp add: nth_append)
    have mem: "ys ! j \<in> set ys" using jl by simp
    have "set (ys[j := l]) = insert l (set ys - {ys ! j})"
      using dy jl by (rule set_update_distinct)
    moreover have "distinct (ys[j := l])"
      using dy l by (simp add: distinct_list_update)
    ultimately show ?thesis
      unfolding upd nth using xs l mem by auto
  qed
qed

lemma sync_after_add:
  assumes "distinct xs" and "\<And>a. f a = (a \<in> set xs)" and "\<not> f w"
  shows "distinct (xs @ [w]) \<and> (\<forall>a. (f(w := True)) a = (a \<in> set (xs @ [w])))"
  using assms by auto

lemma sync_after_remove:
  assumes "\<And>a. f a = (a \<in> S)"
  shows "\<forall>a. (f(w := False)) a = (a \<in> S - {w})"
  using assms by auto

lemma in_sync_initialize: "in_sync (initialize initialOwner)"
  by (simp add: in_sync_def initialize_def)

lemma add_in_sync:
  assumes sync: "in_sync s" and add: "addDevWallet sender wallet s = Inr s'"
  shows "in_sync s' \<and> devWallets s' wallet \<and>
         set (devWalletList s') = insert wallet (set (devWalletList s))"
proof -
  from add have nm: "\<not> devWallets s wallet"
    by (simp add: addDevWallet_def split: if_splits)
  from add have s': "s' = s\<lparr>devWallets := (devWallets s)(wallet := True),
                               devWalletList := devWalletList s @ [wallet]\<rparr>"
    by (simp add: addDevWallet_def split: if_splits)
  from sync have d: "distinct (devWalletList s)"
    and iff: "\<And>a. devWallets s a = (a \<in> set (devWalletList s))"
    by (simp_all add: in_sync_def)
  have l': "devWalletList s' = devWalletList s @ [wallet]"
    and m': "devWallets s' = (devWallets s)(wallet := True)"
    using s' by simp_all
  from sync_after_add [OF d iff nm] have "in_sync s'"
    unfolding in_sync_def l' m' .
  moreover have "devWallets s' wallet" unfolding m' by simp
  moreover have "set (devWalletList s') = insert wallet (set (devWalletList s))"
    unfolding l' by simp
  ultimately show ?thesis by blast
qed

lemma remove_in_sync:
  assumes sync: "in_sync s" and rm: "removeDevWallet sender wallet s = Inr s'"
  shows "in_sync s' \<and> \<not> devWallets s' wallet \<and> wallet \<notin> set (devWalletList s') \<and>
         set (devWalletList s') = set (devWalletList s) - {wallet} \<and>
         (\<exists>j<length (devWalletList s). devWalletList s ! j = wallet \<and>
            devWalletList s' = butlast ((devWalletList s)[j := last (devWalletList s)]))"
proof -
  from rm have member: "devWallets s wallet"
    by (simp add: removeDevWallet_def split: if_splits)
  from rm have s': "s' = s\<lparr>devWallets := (devWallets s)(wallet := False),
                    devWalletList := remove_loop wallet 0 (devWalletList s)\<rparr>"
    by (simp add: removeDevWallet_def split: if_splits)
  from sync have d: "distinct (devWalletList s)"
    and iff: "\<And>a. devWallets s a = (a \<in> set (devWalletList s))"
    by (simp_all add: in_sync_def)
  from member iff have "wallet \<in> set (devWalletList s)" by simp
  then obtain j where j: "j < length (devWalletList s)" "devWalletList s ! j = wallet"
    and loop: "remove_loop wallet 0 (devWalletList s) =
               butlast ((devWalletList s)[j := last (devWalletList s)])"
    using remove_loop_closed_form [of 0 "devWalletList s" wallet] by auto
  from swap_pop [OF d j(1)]
  have st: "set (butlast ((devWalletList s)[j := last (devWalletList s)])) =
            set (devWalletList s) - {wallet}"
    and ds: "distinct (butlast ((devWalletList s)[j := last (devWalletList s)]))"
    unfolding j(2) by blast+
  have l': "devWalletList s' = butlast ((devWalletList s)[j := last (devWalletList s)])"
    using s' loop by simp
  have m': "devWallets s' = (devWallets s)(wallet := False)" using s' by simp
  from sync_after_remove [of "devWallets s" "set (devWalletList s)" wallet, OF iff] ds
  have "in_sync s'"
    unfolding in_sync_def l' m' st by blast
  moreover have "\<not> devWallets s' wallet" unfolding m' by simp
  moreover have "wallet \<notin> set (devWalletList s')" unfolding l' st by simp
  moreover have "set (devWalletList s') = set (devWalletList s) - {wallet}"
    unfolding l' st ..
  moreover have "\<exists>j<length (devWalletList s). devWalletList s ! j = wallet \<and>
            devWalletList s' = butlast ((devWalletList s)[j := last (devWalletList s)])"
    using j l' by blast
  ultimately show ?thesis by blast
qed

lemma apply_call_in_sync:
  assumes "in_sync s"
  shows "in_sync (apply_call c s)"
proof (cases c)
  case (AddDevWallet sender wallet)
  show ?thesis
  proof (cases "addDevWallet sender wallet s")
    case (Inl r)
    then show ?thesis using AddDevWallet assms by simp
  next
    case (Inr s')
    from add_in_sync [OF assms Inr] show ?thesis using AddDevWallet Inr by simp
  qed
next
  case (RemoveDevWallet sender wallet)
  show ?thesis
  proof (cases "removeDevWallet sender wallet s")
    case (Inl r)
    then show ?thesis using RemoveDevWallet assms by simp
  next
    case (Inr s')
    from remove_in_sync [OF assms Inr] show ?thesis using RemoveDevWallet Inr by simp
  qed
qed

lemma apply_calls_in_sync: "in_sync s \<Longrightarrow> in_sync (apply_calls cs s)"
  by (induction cs arbitrary: s) (simp_all add: apply_call_in_sync)

text \<open>
  Claim C8. Every state reached from \<^verbatim>\<open>initialize\<close> by calls of
  \<^verbatim>\<open>addDevWallet\<close> and \<^verbatim>\<open>removeDevWallet\<close> keeps the mapping and the list in
  sync: an address maps to true if and only if it occurs in the list (and it occurs once).
  From such a state, a successful \<^verbatim>\<open>addDevWallet\<close> adds the wallet to both; a
  successful \<^verbatim>\<open>removeDevWallet\<close> leaves the wallet absent from both and every
  other member in place, the list being the old one with its last element written into a
  slot that held the wallet and then shortened by one.
\<close>

theorem dev_wallet_allow_list_in_sync:
  "in_sync (apply_calls cs (initialize initialOwner)) \<and>
   (in_sync s \<and> addDevWallet sender wallet s = Inr s' \<longrightarrow>
      in_sync s' \<and> devWallets s' wallet \<and>
      set (devWalletList s') = insert wallet (set (devWalletList s))) \<and>
   (in_sync s \<and> removeDevWallet sender wallet s = Inr s'' \<longrightarrow>
      in_sync s'' \<and> \<not> devWallets s'' wallet \<and> wallet \<notin> set (devWalletList s'') \<and>
      set (devWalletList s'') = set (devWalletList s) - {wallet} \<and>
      (\<exists>j<length (devWalletList s). devWalletList s ! j = wallet \<and>
         devWalletList s'' = butlast ((devWalletList s)[j := last (devWalletList s)])))"
proof (rule conjI)
  show "in_sync (apply_calls cs (initialize initialOwner))"
    by (rule apply_calls_in_sync [OF in_sync_initialize])
next
  show "(in_sync s \<and> addDevWallet sender wallet s = Inr s' \<longrightarrow>
      in_sync s' \<and> devWallets s' wallet \<and>
      set (devWalletList s') = insert wallet (set (devWalletList s))) \<and>
   (in_sync s \<and> removeDevWallet sender wallet s = Inr s'' \<longrightarrow>
      in_sync s'' \<and> \<not> devWallets s'' wallet \<and> wallet \<notin> set (devWalletList s'') \<and>
      set (devWalletList s'') = set (devWalletList s) - {wallet} \<and>
      (\<exists>j<length (devWalletList s). devWalletList s ! j = wallet \<and>
         devWalletList s'' = butlast ((devWalletList s)[j := last (devWalletList s)])))"
  proof (rule conjI; rule impI; elim conjE)
    assume "in_sync s" "addDevWallet sender wallet s = Inr s'"
    then show "in_sync s' \<and> devWallets s' wallet \<and>
      set (devWalletList s') = insert wallet (set (devWalletList s))"
      by (rule add_in_sync)
  next
    assume "in_sync s" "removeDevWallet sender wallet s = Inr s''"
    then show "in_sync s'' \<and> \<not> devWallets s'' wallet \<and> wallet \<notin> set (devWalletList s'') \<and>
      set (devWalletList s'') = set (devWalletList s) - {wallet} \<and>
      (\<exists>j<length (devWalletList s). devWalletList s ! j = wallet \<and>
         devWalletList s'' = butlast ((devWalletList s)[j := last (devWalletList s)]))"
      by (rule remove_in_sync)
  qed
qed

lemma three_wallets_eq:
  "three_wallets =
     \<lparr>owner = 9, devWallets = (\<lambda>a. a = 1 \<or> a = 2 \<or> a = 3), devWalletList = [1, 2, 3]\<rparr>"
  by (auto simp: three_wallets_def initialize_def addDevWallet_def fun_eq_iff)

text \<open>
  The theorem after the owner 9 has added the wallets 1, 2 and 3 and removes wallet 1: the
  list becomes 3, 2.
\<close>

theorem dev_wallet_allow_list_witness:
  "in_sync three_wallets \<and>
   (\<exists>s''. removeDevWallet 9 1 three_wallets = Inr s'' \<and> in_sync s'' \<and>
      \<not> devWallets s'' 1 \<and> devWalletList s'' = [3, 2])"
proof -
  let ?s = "three_wallets\<lparr>devWallets := (devWallets three_wallets)(1 := False),
                          devWalletList := [3, 2]\<rparr>"
  have sync: "in_sync three_wallets"
    by (auto simp: three_wallets_eq in_sync_def)
  have rm: "removeDevWallet 9 1 three_wallets = Inr ?s"
    by (simp add: three_wallets_eq removeDevWallet_def remove_loop.simps)
  from dev_wallet_allow_list_in_sync
         [where cs = "[]" and initialOwner = 9 and s = three_wallets and sender = 9
            and wallet = 1 and s'' = ?s] sync rm
  have "in_sync ?s \<and> \<not> devWallets ?s 1" by simp
  with sync rm show ?thesis by simp
qed

subsection \<open>Health after startup\<close>

lemma after_fetch_keeps:
  assumes "after_fetch ok reply now s = (t, calls, s')" and "no_failure_yet s"
  shows "no_failure_yet s'"
  using assms
  by (auto simp: after_fetch_def no_failure_yet_def Let_def on_error_def on_tx_failure_def
      simp del: strict_neq.simps split: sum.splits prod.splits if_splits option.splits)

lemma after_tx_keeps: "no_failure_yet s \<Longrightarrow> no_failure_yet (after_tx out b m now s)"
  by (simp add: after_tx_def no_failure_yet_def on_success_def on_tx_failure_def)

lemma step_keeps:
  assumes "no_failure_yet (svc sys)"
  shows "no_failure_yet (svc (step e sys))"
proof (cases e)
  case (Start now)
  then show ?thesis
    using assms by (simp add: begin_cycle_def start_prefix_def mark_attempt_def no_failure_yet_def)
next
  case (TimerTick now)
  then show ?thesis
    using assms by (simp add: begin_cycle_def mark_attempt_def no_failure_yet_def)
next
  case (PostUpdate now)
  then show ?thesis
    using assms by (simp add: begin_cycle_def mark_attempt_def no_failure_yet_def)
next
  case (FetchSettles i reply now)
  obtain t calls s' where af: "after_fetch (feeOptionsOk sys) reply now (svc sys) = (t, calls, s')"
    by (cases "after_fetch (feeOptionsOk sys) reply now (svc sys)") auto
  from after_fetch_keeps [OF af assms] show ?thesis
    using FetchSettles assms af by (simp add: Let_def)
next
  case (TxSettles i out now)
  show ?thesis
  proof (cases "i < length (tasks sys)")
    case True
    obtain who t where wt: "tasks sys ! i = (who, t)" by (cases "tasks sys ! i") auto
    show ?thesis
      using TxSettles True wt assms after_tx_keeps by (cases t) simp_all
  next
    case False
    then show ?thesis using TxSettles assms by simp
  qed
qed

lemma run_keeps: "no_failure_yet (svc sys) \<Longrightarrow> no_failure_yet (svc (run evs sys))"
  by (induction evs arbitrary: sys) (simp_all add: step_keeps)

lemma started_no_failure: "no_failure_yet (svc (step (Start t1) (boot t0 ok)))"
  by (simp add: boot_def constructor_def begin_cycle_def start_prefix_def mark_attempt_def
      no_failure_yet_def)

lemma healthy_without_failure:
  assumes "no_failure_yet s" and "errorCount (serviceStatus s) = 0"
  shows "httpStatus (fst (get_health now s)) = 200 \<and> healthy (fst (get_health now s))"
  using assms by (simp add: no_failure_yet_def get_health_def Let_def)

text \<open>
  Claim C10. \<^verbatim>\<open>start()\<close>, called on the state the constructor leaves, sets the
  status to "running" and \<^verbatim>\<open>isHealthy\<close> to true before it awaits the first cycle:
  while that cycle is suspended at its fetch, no contract call has been made and no update
  has succeeded, and \<^verbatim>\<open>GET /health\<close> answers 200 with \<^verbatim>\<open>healthy: true\<close>. It
  keeps answering so, whatever happens afterwards, for as long as no cycle has recorded a
  failure, whether or not an on-chain update has succeeded yet.
\<close>

theorem start_is_healthy_before_first_update:
  "status (serviceStatus (svc (step (Start t1) (boot t0 ok)))) = ''running'' \<and>
   isHealthy (serviceStatus (svc (step (Start t1) (boot t0 ok)))) \<and>
   tasks (step (Start t1) (boot t0 ok)) = [(FromStart, AwaitFetch)] \<and>
   submitted (step (Start t1) (boot t0 ok)) = [] \<and>
   updateCount (serviceStatus (svc (step (Start t1) (boot t0 ok)))) = 0 \<and>
   lastSuccessfulUpdate (serviceStatus (svc (step (Start t1) (boot t0 ok)))) = None \<and>
   httpStatus (fst (get_health now (svc (step (Start t1) (boot t0 ok))))) = 200 \<and>
   healthy (fst (get_health now (svc (step (Start t1) (boot t0 ok))))) \<and>
   (errorCount (serviceStatus (svc (run evs (step (Start t1) (boot t0 ok))))) = 0 \<longrightarrow>
      httpStatus (fst (get_health now (svc (run evs (step (Start t1) (boot t0 ok)))))) = 200 \<and>
      healthy (fst (get_health now (svc (run evs (step (Start t1) (boot t0 ok)))))))"
proof -
  have first: "status (serviceStatus (svc (step (Start t1) (boot t0 ok)))) = ''running'' \<and>
   isHealthy (serviceStatus (svc (step (Start t1) (boot t0 ok)))) \<and>
   tasks (step (Start t1) (boot t0 ok)) = [(FromStart, AwaitFetch)] \<and>
   submitted (step (Start t1) (boot t0 ok)) = [] \<and>
   updateCount (serviceStatus (svc (step (Start t1) (boot t0 ok)))) = 0 \<and>
   lastSuccessfulUpdate (serviceStatus (svc (step (Start t1) (boot t0 ok)))) = None \<and>
   httpStatus (fst (get_health now (svc (step (Start t1) (boot t0 ok))))) = 200 \<and>
   healthy (fst (get_health now (svc (step (Start t1) (boot t0 ok)))))"
    by (simp add: boot_def constructor_def begin_cycle_def start_prefix_def mark_attempt_def
      get_health_def Let_def)
  have later: "errorCount (serviceStatus (svc (run evs (step (Start t1) (boot t0 ok))))) = 0 \<longrightarrow>
      httpStatus (fst (get_health now (svc (run evs (step (Start t1) (boot t0 ok)))))) = 200 \<and>
      healthy (fst (get_health now (svc (run evs (step (Start t1) (boot t0 ok))))))"
    using healthy_without_failure [OF run_keeps [OF started_no_failure]] by blast
  from first later show ?thesis by blast
qed

text \<open>
  The theorem after the first cycle has fetched 40 and 60 and cached them: nothing was
  written on chain, no update is counted, and \<^verbatim>\<open>GET /health\<close> answers 200.
\<close>

theorem start_is_healthy_witness:
  "errorCount (serviceStatus (svc (run
      [FetchSettles 0 (Body (Number (Finite 40)) (Number (Finite 60))) 2]
      (step (Start 1) (boot 0 True))))) = 0 \<and>
   updateCount (serviceStatus (svc (run
      [FetchSettles 0 (Body (Number (Finite 40)) (Number (Finite 60))) 2]
      (step (Start 1) (boot 0 True))))) = 0 \<and>
   submitted (run
      [FetchSettles 0 (Body (Number (Finite 40)) (Number (Finite 60))) 2]
      (step (Start 1) (boot 0 True))) = [] \<and>
   httpStatus (fst (get_health 3 (svc (run
      [FetchSettles 0 (Body (Number (Finite 40)) (Number (Finite 60))) 2]
      (step (Start 1) (boot 0 True)))))) = 200"
proof -
  have h: "errorCount (serviceStatus (svc (run
      [FetchSettles 0 (Body (Number (Finite 40)) (Number (Finite 60))) 2]
      (step (Start 1) (boot 0 True))))) = 0"
    "updateCount (serviceStatus (svc (run
      [FetchSettles 0 (Body (Number (Finite 40)) (Number (Finite 60))) 2]
      (step (Start 1) (boot 0 True))))) = 0"
    "submitted (run
      [FetchSettles 0 (Body (Number (Finite 40)) (Number (Finite 60))) 2]
      (step (Start 1) (boot 0 True))) = []"
    by (simp_all add: loop_defs)
  from start_is_healthy_before_first_update
    [where ?t1.0 = 1 and ?t0.0 = 0 and ok = True and now = 3
       and evs = "[FetchSettles 0 (Body (Number (Finite 40)) (Number (Finite 60))) 2]"] h(1)
  have "httpStatus (fst (get_health 3 (svc (run
      [FetchSettles 0 (Body (Number (Finite 40)) (Number (Finite 60))) 2]
      (step (Start 1) (boot 0 True)))))) = 200"
    by blast
  with h show ?thesis by blast
qed

end
